theory Spec2Isabelle
  imports Complex_Main
begin

section \<open>Numbers and faults\<close>

text \<open>
  The program (\<^verbatim>\<open>particles.js\<close>) computes with JavaScript numbers. They are modelled
  as the real numbers: rounding, and the narrowing of a store into a \<^verbatim>\<open>Float32Array\<close>,
  are not represented. Where the source would leave the reals (a division by zero gives
  \<^verbatim>\<open>Infinity\<close> or \<^verbatim>\<open>NaN\<close>, a read beyond the end of a typed array gives
  \<^verbatim>\<open>undefined\<close>, which arithmetic turns into \<^verbatim>\<open>NaN\<close>) the model stops with
  \<open>NotANumber\<close>; the source itself goes on computing with the non-finite value. A
  property access on \<^verbatim>\<open>null\<close> throws, which is \<open>TypeError\<close>. One function,
  \<^verbatim>\<open>noise3D\<close>, is modelled a second time on numbers with their special values
  (\<open>js_number\<close>), for what it returns on arguments that are not finite or overflow.
\<close>

datatype fault = TypeError | NotANumber

definition js_div :: "real \<Rightarrow> real \<Rightarrow> fault + real" where
  "js_div a b = (if b = 0 then Inl NotANumber else Inr (a / b))"

definition bind_fault :: "fault + 'a \<Rightarrow> ('a \<Rightarrow> fault + 'b) \<Rightarrow> fault + 'b" where
  "bind_fault r f = (case r of Inl e \<Rightarrow> Inl e | Inr a \<Rightarrow> f a)"

definition js_trunc :: "real \<Rightarrow> int" where
  "js_trunc a = (if 0 \<le> a then \<lfloor>a\<rfloor> else \<lceil>a\<rceil>)"

text \<open>The remainder operator \<^verbatim>\<open>a % b\<close> on numbers: the result has the sign of the
  dividend. The source only uses it with the literal divisor 1.\<close>

definition js_rem :: "real \<Rightarrow> real \<Rightarrow> real" where
  "js_rem a b = a - b * of_int (js_trunc (a / b))"

section \<open>SoundManager\<close>

datatype ctx_state = Suspended | Running | Closed

text \<open>
  The fields of the class, and the two pieces of the browser that \<^verbatim>\<open>playNote\<close> writes
  to: \<open>timeouts\<close> holds the delay (in milliseconds) of every \<^verbatim>\<open>setTimeout\<close> callback
  that is scheduled and has not run yet, \<open>started\<close> the start time of every oscillator
  pair handed to the audio graph. Pitch, waveform and envelope of a note are not modelled.
\<close>

record SoundManager =
  ctx :: "ctx_state option"
  masterGain :: "real option"
  isInitialized :: bool
  currentScale :: "int list"
  sm_isInverted :: bool
  lastNoteTime :: real
  noteDensity :: real
  maxVoices :: int
  activeVoices :: int
  isMuted :: bool
  timeouts :: "real list"
  started :: "real list"

definition scaleDefault :: "int list" where
  "scaleDefault = [60, 62, 64, 67, 69, 72, 74, 76, 79, 81]"

definition scaleInverted :: "int list" where
  "scaleInverted = [48, 49, 52, 53, 55, 57, 58, 60, 64, 65]"

definition new_SoundManager :: SoundManager where
  "new_SoundManager =
     \<lparr> ctx = None, masterGain = None, isInitialized = False,
       currentScale = scaleDefault, sm_isInverted = False,
       lastNoteTime = 0, noteDensity = 0.15,
       maxVoices = 8, activeVoices = 0, isMuted = False,
       timeouts = [], started = [] \<rparr>"

definition setInverted :: "bool \<Rightarrow> SoundManager \<Rightarrow> SoundManager" where
  "setInverted inverted s =
     s\<lparr> sm_isInverted := inverted,
        currentScale := (if inverted then scaleInverted else scaleDefault) \<rparr>"

text \<open>\<^verbatim>\<open>toggleMute\<close>: with a master gain present the gain is ramped to its new target,
  reading \<^verbatim>\<open>this.ctx.currentTime\<close> on the way.\<close>

definition toggleMute :: "SoundManager \<Rightarrow> fault + SoundManager" where
  "toggleMute s =
     (let s1 = s\<lparr> isMuted := \<not> isMuted s \<rparr> in
      case masterGain s1 of
        None \<Rightarrow> Inr s1
      | Some g \<Rightarrow>
          (case ctx s1 of
             None \<Rightarrow> Inl TypeError
           | Some c \<Rightarrow> Inr (s1\<lparr> masterGain := Some (if isMuted s1 then 0 else 0.4) \<rparr>)))"

text \<open>\<^verbatim>\<open>init\<close>; the argument is the state in which the browser creates the context.\<close>

definition init :: "ctx_state \<Rightarrow> SoundManager \<Rightarrow> SoundManager" where
  "init c s =
     (if isInitialized s then s
      else s\<lparr> ctx := Some c, masterGain := Some 0.8, isInitialized := True \<rparr>)"

text \<open>\<^verbatim>\<open>playNote\<close> at audio time \<open>t\<close>. The debug line reads
  \<^verbatim>\<open>this.masterGain.gain.value\<close> before anything is changed.\<close>

definition playNote :: "real \<Rightarrow> SoundManager \<Rightarrow> fault + SoundManager" where
  "playNote t s =
     (case ctx s of
        None \<Rightarrow> Inr s
      | Some c \<Rightarrow>
          (case masterGain s of
             None \<Rightarrow> Inl TypeError
           | Some g \<Rightarrow>
               (let releaseTime = (if sm_isInverted s then 4.0 else 2.5) in
                Inr (s\<lparr> activeVoices := activeVoices s + 1,
                        started := started s @ [t],
                        timeouts := timeouts s @ [(releaseTime + 0.5) * 1000] \<rparr>))))"

text \<open>\<^verbatim>\<open>triggerInteractionSound(intensity)\<close>, called when the audio clock
  (\<^verbatim>\<open>this.ctx.currentTime\<close>) reads \<open>now\<close>. A suspended context is asked to resume, which
  changes no field of the manager.\<close>

definition triggerInteractionSound :: "real \<Rightarrow> real \<Rightarrow> SoundManager \<Rightarrow> fault + SoundManager" where
  "triggerInteractionSound now intensity s =
     (if \<not> isInitialized s \<or> isMuted s then Inr s
      else if activeVoices s \<ge> maxVoices s then Inr s
      else
        (case ctx s of
           None \<Rightarrow> Inl TypeError
         | Some c \<Rightarrow>
             if now - lastNoteTime s < noteDensity s then Inr s
             else
               (case playNote now s of
                  Inl e \<Rightarrow> Inl e
                | Inr s1 \<Rightarrow> Inr (s1\<lparr> lastNoteTime := now \<rparr>))))"

text \<open>The callback that \<^verbatim>\<open>playNote\<close> hands to \<^verbatim>\<open>setTimeout\<close>, run by the browser for
  the pending entry number \<open>k\<close>; a callback runs once.\<close>

definition timeoutCallback :: "nat \<Rightarrow> SoundManager \<Rightarrow> SoundManager" where
  "timeoutCallback k s =
     (if k < length (timeouts s)
      then s\<lparr> activeVoices := activeVoices s - 1,
              timeouts := take k (timeouts s) @ drop (Suc k) (timeouts s) \<rparr>
      else s)"

text \<open>Everything that can happen to a SoundManager, and a run of such events from a
  state; a run stops at the first exception.\<close>

datatype sm_event =
    Trigger real real
  | TimeoutFires nat
  | ToggleMute
  | Init ctx_state
  | SetInverted bool

fun sm_step :: "sm_event \<Rightarrow> SoundManager \<Rightarrow> fault + SoundManager" where
  "sm_step (Trigger now intensity) s = triggerInteractionSound now intensity s"
| "sm_step (TimeoutFires k) s = Inr (timeoutCallback k s)"
| "sm_step ToggleMute s = toggleMute s"
| "sm_step (Init c) s = Inr (init c s)"
| "sm_step (SetInverted inverted) s = Inr (setInverted inverted s)"

fun sm_run :: "sm_event list \<Rightarrow> SoundManager \<Rightarrow> fault + SoundManager" where
  "sm_run [] s = Inr s"
| "sm_run (e # es) s = (case sm_step e s of Inl f \<Rightarrow> Inl f | Inr s1 \<Rightarrow> sm_run es s1)"

text \<open>The audio times of the calls to \<^verbatim>\<open>triggerInteractionSound\<close> in a run.\<close>

fun trigger_times :: "sm_event list \<Rightarrow> real list" where
  "trigger_times [] = []"
| "trigger_times (Trigger now intensity # es) = now # trigger_times es"
| "trigger_times (e # es) = trigger_times es"

text \<open>What every reachable manager satisfies.\<close>

definition sm_inv :: "SoundManager \<Rightarrow> bool" where
  "sm_inv s \<longleftrightarrow>
     activeVoices s = int (length (timeouts s)) \<and>
     activeVoices s \<le> maxVoices s \<and>
     maxVoices s = 8 \<and>
     noteDensity s = 0.15 \<and>
     (isInitialized s \<longrightarrow> ctx s \<noteq> None) \<and>
     (ctx s = None \<longleftrightarrow> masterGain s = None)"

section \<open>ParticleSimulation\<close>

type_synonym vec3 = "real \<times> real \<times> real"

text \<open>The entries of \<^verbatim>\<open>this.config\<close> that the simulation reads (the others set up the
  renderer).\<close>

record sim_config =
  particleCount :: nat
  mouseRadius :: real
  mouseForce :: real
  returnSpeed :: real
  rotationSpeed :: real
  noiseAmount :: real
  windStrength :: real
  windTurbulence :: real
  damping :: real

text \<open>
  The state of the simulation. \<open>positions\<close>, \<open>originalPositions\<close> and \<open>velocities\<close> are
  the arrays of the geometry's attributes \<^verbatim>\<open>position\<close>, \<^verbatim>\<open>originalPosition\<close> and
  \<^verbatim>\<open>velocity\<close>: three entries for each particle. \<^verbatim>\<open>createParticles\<close> allocates each of
  them, and each array of \<open>shapes\<close>, on its own with \<^verbatim>\<open>new Float32Array\<close>, so no two of
  them share storage. \<open>rotation_y\<close> is \<^verbatim>\<open>this.particles.rotation.y\<close>, \<open>uTime\<close> the
  shader uniform of that name.
\<close>

record ParticleSimulation =
  config :: sim_config
  isMouseDown :: bool
  soundManager :: SoundManager
  currentShape :: string
  isTransforming :: bool
  cooldown :: int
  shapes :: "string \<Rightarrow> real list option"
  isFrozen :: bool
  isInverted :: bool
  positions :: "real list"
  originalPositions :: "real list"
  velocities :: "real list"
  rotation_y :: real
  uTime :: real

definition shapeOrder :: "string list" where
  "shapeOrder = [''sphere'', ''cube'', ''pyramid'']"

text \<open>\<^verbatim>\<open>Array.prototype.indexOf\<close>: the first index of the element, or -1.\<close>

fun indexOf :: "'a list \<Rightarrow> 'a \<Rightarrow> int" where
  "indexOf [] a = -1"
| "indexOf (b # bs) a =
     (if b = a then 0 else (let k = indexOf bs a in if k < 0 then -1 else k + 1))"

subsection \<open>resetParticles\<close>

text \<open>One pass of the loop body, on the pair of arrays it writes. A store beyond the
  end of a typed array is ignored, as \<open>list_update\<close> does.\<close>

definition reset_iteration ::
  "real list \<Rightarrow> nat \<Rightarrow> real list \<times> real list \<Rightarrow> fault + real list \<times> real list" where
  "reset_iteration original i pv =
     (case pv of (p, v) \<Rightarrow>
        if i < length original then Inr (p[i := original ! i], v[i := 0])
        else Inl NotANumber)"

definition resetParticles :: "ParticleSimulation \<Rightarrow> fault + ParticleSimulation" where
  "resetParticles s =
     (case fold (\<lambda>i r. bind_fault r (reset_iteration (originalPositions s) i))
             [0 ..< particleCount (config s) * 3]
             (Inr (positions s, velocities s)) of
        Inl e \<Rightarrow> Inl e
      | Inr (p, v) \<Rightarrow> Inr (s\<lparr> positions := p, velocities := v \<rparr>))"

subsection \<open>toggleShape\<close>

definition copy_iteration ::
  "real list option \<Rightarrow> nat \<Rightarrow> real list \<Rightarrow> fault + real list" where
  "copy_iteration newTarget i original =
     (case newTarget of
        None \<Rightarrow> Inl TypeError
      | Some t \<Rightarrow>
          if i < length t then Inr (original[i := t ! i]) else Inl NotANumber)"

definition toggleShape :: "ParticleSimulation \<Rightarrow> fault + ParticleSimulation" where
  "toggleShape s =
     (let currentIndex = indexOf shapeOrder (currentShape s);
          nextIndex = (currentIndex + 1) mod int (length shapeOrder);
          s1 = s\<lparr> currentShape := shapeOrder ! nat nextIndex \<rparr>;
          newTarget = shapes s1 (currentShape s1)
      in case fold (\<lambda>i r. bind_fault r (copy_iteration newTarget i))
                [0 ..< particleCount (config s1) * 3]
                (Inr (originalPositions s1)) of
           Inl e \<Rightarrow> Inl e
         | Inr original \<Rightarrow>
             Inr (s1\<lparr> originalPositions := original, isTransforming := True \<rparr>))"

subsection \<open>noise3D\<close>

text \<open>
  \<^verbatim>\<open>noise3D\<close> over the reals, as all arithmetic of the frame loop is: its value for finite
  arguments whose dot product does not overflow. What the function returns for every
  JavaScript number, the non-finite ones included, is \<open>noise3D_number\<close> below; the two
  agree wherever nothing overflows.
\<close>

definition noise3D :: "real \<Rightarrow> real \<Rightarrow> real \<Rightarrow> real" where
  "noise3D x y z =
     (let dot = x * 12.9898 + y * 78.233 + z * 37.719
      in js_rem (sin dot * 43758.5453) 1)"










subsection \<open>updateParticles\<close>

text \<open>The constants that \<^verbatim>\<open>updateParticles\<close> computes before its loop. \<open>l_mousePos\<close> is
  the pointer's world position taken into the field's local frame by the library
  (\<^verbatim>\<open>applyMatrix4\<close> with the inverse of the field's world matrix); it is an input here.\<close>

record frame =
  l_time :: real
  l_mousePos :: vec3
  l_mouseRadius :: real
  l_mouseForce :: real
  l_returnSpeed :: real
  l_noiseAmount :: real
  l_windTurbulence :: real
  l_damping :: real
  l_windX :: real
  l_windY :: real
  l_windZ :: real

definition frame_of :: "real \<Rightarrow> vec3 \<Rightarrow> ParticleSimulation \<Rightarrow> frame" where
  "frame_of time mousePos s =
     (let windStrength = windStrength (config s);
          windAngle = time * 0.1
      in \<lparr> l_time = time,
           l_mousePos = mousePos,
           l_mouseRadius = mouseRadius (config s),
           l_mouseForce = mouseForce (config s) * (if isMouseDown s then 2.5 else 1),
           l_returnSpeed = returnSpeed (config s),
           l_noiseAmount = noiseAmount (config s),
           l_windTurbulence = windTurbulence (config s),
           l_damping = damping (config s),
           l_windX = cos windAngle * windStrength,
           l_windY = sin (windAngle * 0.7) * windStrength * 0.5,
           l_windZ = sin (windAngle * 0.5) * windStrength * 0.3 \<rparr>)"

text \<open>The compound assignments \<^verbatim>\<open>xs[k] += e\<close> and \<^verbatim>\<open>xs[k] *= e\<close> on a typed array.\<close>

definition add_at :: "real list \<Rightarrow> nat \<Rightarrow> real \<Rightarrow> real list" where
  "add_at xs k e = xs[k := xs ! k + e]"

definition mul_at :: "real list \<Rightarrow> nat \<Rightarrow> real \<Rightarrow> real list" where
  "mul_at xs k e = xs[k := xs ! k * e]"

text \<open>The block guarded by \<^verbatim>\<open>dist < mouseRadius && dist > 0\<close>, on the velocity array
  and the accumulated energy.\<close>

definition interaction ::
  "frame \<Rightarrow> nat \<Rightarrow> real \<Rightarrow> real \<Rightarrow> real \<Rightarrow> real \<Rightarrow> real list \<times> real
     \<Rightarrow> fault + real list \<times> real" where
  "interaction c i3 dx dy dz dist' vt =
     (case vt of (velocities', totalInteractionForce) \<Rightarrow>
      if dist' < l_mouseRadius c \<and> dist' > 0 then
        bind_fault (js_div dist' (l_mouseRadius c)) (\<lambda>q.
        bind_fault (js_div dx dist') (\<lambda>ux.
        bind_fault (js_div dy dist') (\<lambda>uy.
        bind_fault (js_div dz dist') (\<lambda>uz.
          let force = (1 - q) * (1 - q) * l_mouseForce c;
              tangentX = - dy * 0.3;
              tangentY = dx * 0.3;
              v1 = add_at velocities' i3 (ux * force + tangentX * force * 0.2);
              v2 = add_at v1 (i3 + 1) (uy * force + tangentY * force * 0.2);
              v3 = add_at v2 (i3 + 2) (uz * force)
          in Inr (v3, if force > 0.1 then totalInteractionForce + force
                      else totalInteractionForce)))))
      else Inr (velocities', totalInteractionForce))"

text \<open>The wind, the pull towards the origin and the jitter, each on the velocity array.\<close>

definition wind ::
  "frame \<Rightarrow> nat \<Rightarrow> real \<Rightarrow> real \<Rightarrow> real \<Rightarrow> real \<Rightarrow> real list \<Rightarrow> real list" where
  "wind c i3 x y z displacement velocities' =
     (let windInfluence = min (displacement / 50) 1 * 0.5;
          time = l_time c;
          turbX = noise3D (x * 0.01 + time * 0.2) (y * 0.01) (z * 0.01);
          turbY = noise3D (x * 0.01) (y * 0.01 + time * 0.2) (z * 0.01);
          turbZ = noise3D (x * 0.01) (y * 0.01) (z * 0.01 + time * 0.2);
          w1 = add_at velocities' i3
                 ((l_windX c + turbX * l_windTurbulence c) * windInfluence * 0.05);
          w2 = add_at w1 (i3 + 1)
                 ((l_windY c + turbY * l_windTurbulence c) * windInfluence * 0.05)
      in add_at w2 (i3 + 2)
                 ((l_windZ c + turbZ * l_windTurbulence c) * windInfluence * 0.05))"

definition pull ::
  "frame \<Rightarrow> nat \<Rightarrow> vec3 \<Rightarrow> vec3 \<Rightarrow> real \<Rightarrow> real list \<Rightarrow> real list" where
  "pull c i3 p orig displacement velocities' =
     (case (p, orig) of ((x, y, z), (ox, oy, oz)) \<Rightarrow>
      if displacement > 0.1 then
        let pullStrength = l_returnSpeed c * (1 + displacement * 0.01);
            r1 = add_at velocities' i3 ((ox - x) * pullStrength);
            r2 = add_at r1 (i3 + 1) ((oy - y) * pullStrength)
        in add_at r2 (i3 + 2) ((oz - z) * pullStrength)
      else velocities')"

definition jitter ::
  "frame \<Rightarrow> nat \<Rightarrow> real \<Rightarrow> real \<Rightarrow> real \<Rightarrow> real list \<Rightarrow> real list" where
  "jitter c i3 x y z velocities' =
     (if l_noiseAmount c > 0 then
        let noiseScale = 0.01;
            noiseTime = l_time c * 0.2;
            n1 = add_at velocities' i3
                   (noise3D (x * noiseScale + noiseTime) (y * noiseScale) (z * noiseScale)
                      * l_noiseAmount c * 0.01);
            n2 = add_at n1 (i3 + 1)
                   (noise3D (x * noiseScale) (y * noiseScale + noiseTime) (z * noiseScale)
                      * l_noiseAmount c * 0.01)
        in add_at n2 (i3 + 2)
                   (noise3D (x * noiseScale) (y * noiseScale) (z * noiseScale + noiseTime)
                      * l_noiseAmount c * 0.01)
      else velocities')"

text \<open>One pass of the loop over the particles, on the two arrays it writes and the
  accumulated energy.\<close>

definition particle_iteration ::
  "frame \<Rightarrow> real list \<Rightarrow> nat \<Rightarrow> real list \<times> real list \<times> real
     \<Rightarrow> fault + real list \<times> real list \<times> real" where
  "particle_iteration c original i st =
     (case st of (positions', velocities', totalInteractionForce) \<Rightarrow>
      let i3 = i * 3 in
      if \<not> (i3 + 2 < length positions' \<and> i3 + 2 < length original \<and>
             i3 + 2 < length velocities')
      then Inl NotANumber
      else
        let x = positions' ! i3;
            y = positions' ! (i3 + 1);
            z = positions' ! (i3 + 2);
            ox = original ! i3;
            oy = original ! (i3 + 1);
            oz = original ! (i3 + 2);
            dispX = x - ox;
            dispY = y - oy;
            dispZ = z - oz;
            displacement = sqrt (dispX * dispX + dispY * dispY + dispZ * dispZ);
            dx = x - fst (l_mousePos c);
            dy = y - fst (snd (l_mousePos c));
            dz = z - snd (snd (l_mousePos c));
            dist' = sqrt (dx * dx + dy * dy + dz * dz)
        in
        bind_fault (interaction c i3 dx dy dz dist' (velocities', totalInteractionForce))
          (\<lambda>(v3, total).
            let w3 = wind c i3 x y z displacement v3;
                r3 = pull c i3 (x, y, z) (ox, oy, oz) displacement w3;
                n3 = jitter c i3 x y z r3;
                p1 = add_at positions' i3 (n3 ! i3);
                p2 = add_at p1 (i3 + 1) (n3 ! (i3 + 1));
                p3 = add_at p2 (i3 + 2) (n3 ! (i3 + 2));
                d1 = mul_at n3 i3 (l_damping c);
                d2 = mul_at d1 (i3 + 1) (l_damping c);
                d3 = mul_at d2 (i3 + 2) (l_damping c)
            in Inr (p3, d3, total)))"

text \<open>The loop over all particles, from energy 0.\<close>

definition particle_loop ::
  "frame \<Rightarrow> ParticleSimulation \<Rightarrow> fault + real list \<times> real list \<times> real" where
  "particle_loop c s =
     fold (\<lambda>i r. bind_fault r (particle_iteration c (originalPositions s) i))
       [0 ..< particleCount (config s)]
       (Inr (positions s, velocities s, 0))"

text \<open>The test after the loop: the argument with which \<^verbatim>\<open>triggerInteractionSound\<close> is
  called in this frame, if it is called. \<open>rnd\<close> is what \<^verbatim>\<open>Math.random()\<close> returns there.\<close>

definition interaction_sound :: "real \<Rightarrow> real \<Rightarrow> real option" where
  "interaction_sound totalInteractionForce rnd =
     (if totalInteractionForce > 5.0 then
        (if rnd < min (totalInteractionForce * 0.005) 0.5
         then Some totalInteractionForce else None)
      else None)"

text \<open>\<^verbatim>\<open>updateParticles(time)\<close>, with the pointer at \<open>mousePos\<close>, the random draw \<open>rnd\<close>
  and the audio clock at \<open>now\<close>.\<close>

definition updateParticles ::
  "real \<Rightarrow> vec3 \<Rightarrow> real \<Rightarrow> real \<Rightarrow> ParticleSimulation \<Rightarrow> fault + ParticleSimulation" where
  "updateParticles time mousePos rnd now s =
     (let c = frame_of time mousePos s;
          s1 = (if cooldown s > 0 then s\<lparr> cooldown := cooldown s - 1 \<rparr> else s)
      in bind_fault (particle_loop c s1) (\<lambda>(p, v, totalInteractionForce).
           let s2 = s1\<lparr> positions := p, velocities := v \<rparr> in
           bind_fault
             (case interaction_sound totalInteractionForce rnd of
                None \<Rightarrow> Inr (soundManager s2)
              | Some intensity \<Rightarrow>
                  triggerInteractionSound now intensity (soundManager s2))
             (\<lambda>sm.
                let s3 = s2\<lparr> soundManager := sm \<rparr>
                in Inr (if isTransforming s3 then s3\<lparr> isTransforming := False \<rparr>
                        else s3))))"

subsection \<open>animate\<close>

text \<open>One frame, without the rendering call and the request for the next frame.\<close>

definition animate ::
  "real \<Rightarrow> vec3 \<Rightarrow> real \<Rightarrow> real \<Rightarrow> ParticleSimulation \<Rightarrow> fault + ParticleSimulation" where
  "animate time mousePos rnd now s =
     (let s1 = s\<lparr> uTime := time \<rparr>;
          spinDirection = (if isInverted s1 then - 1 else 1);
          s2 = s1\<lparr> rotation_y := rotation_y s1 + rotationSpeed (config s1) * spinDirection \<rparr>
      in if \<not> isFrozen s2 then updateParticles time mousePos rnd now s2 else Inr s2)"

section \<open>Notions for stating the properties\<close>

text \<open>The three entries of particle \<open>i\<close> in an array, and storing three entries there.\<close>

definition triple :: "real list \<Rightarrow> nat \<Rightarrow> vec3" where
  "triple xs i = (xs ! (i * 3), xs ! (i * 3 + 1), xs ! (i * 3 + 2))"

definition put3 :: "real list \<Rightarrow> nat \<Rightarrow> vec3 \<Rightarrow> real list" where
  "put3 xs i v = (case v of (a, b, c) \<Rightarrow> xs[i * 3 := a, i * 3 + 1 := b, i * 3 + 2 := c])"

definition displacement_of :: "vec3 \<Rightarrow> vec3 \<Rightarrow> real" where
  "displacement_of p orig =
     (case (p, orig) of ((x, y, z), (ox, oy, oz)) \<Rightarrow>
        sqrt ((x - ox) * (x - ox) + (y - oy) * (y - oy) + (z - oz) * (z - oz)))"

definition in_reach :: "frame \<Rightarrow> vec3 \<Rightarrow> bool" where
  "in_reach c p \<longleftrightarrow>
     displacement_of p (l_mousePos c) < l_mouseRadius c \<and> displacement_of p (l_mousePos c) > 0"

definition repulsion :: "frame \<Rightarrow> vec3 \<Rightarrow> real" where
  "repulsion c p =
     (1 - displacement_of p (l_mousePos c) / l_mouseRadius c)
       * (1 - displacement_of p (l_mousePos c) / l_mouseRadius c) * l_mouseForce c"

definition interaction_accel :: "frame \<Rightarrow> vec3 \<Rightarrow> vec3" where
  "interaction_accel c p =
     (case (p, l_mousePos c) of ((x, y, z), (mx, my, mz)) \<Rightarrow>
        if in_reach c p then
          (let d = displacement_of p (l_mousePos c); f = repulsion c p
           in ((x - mx) / d * f + - (y - my) * 0.3 * f * 0.2,
               (y - my) / d * f + (x - mx) * 0.3 * f * 0.2,
               (z - mz) / d * f))
        else (0, 0, 0))"

definition energy_of :: "frame \<Rightarrow> vec3 \<Rightarrow> real" where
  "energy_of c p = (if in_reach c p \<and> repulsion c p > 0.1 then repulsion c p else 0)"

definition wind_accel :: "frame \<Rightarrow> vec3 \<Rightarrow> vec3 \<Rightarrow> vec3" where
  "wind_accel c p orig =
     (case p of (x, y, z) \<Rightarrow>
        let windInfluence = min (displacement_of p orig / 50) 1 * 0.5
        in ((l_windX c + noise3D (x * 0.01 + l_time c * 0.2) (y * 0.01) (z * 0.01)
                * l_windTurbulence c) * windInfluence * 0.05,
            (l_windY c + noise3D (x * 0.01) (y * 0.01 + l_time c * 0.2) (z * 0.01)
                * l_windTurbulence c) * windInfluence * 0.05,
            (l_windZ c + noise3D (x * 0.01) (y * 0.01) (z * 0.01 + l_time c * 0.2)
                * l_windTurbulence c) * windInfluence * 0.05))"

definition return_accel :: "frame \<Rightarrow> vec3 \<Rightarrow> vec3 \<Rightarrow> vec3" where
  "return_accel c p orig =
     (case (p, orig) of ((x, y, z), (ox, oy, oz)) \<Rightarrow>
        if displacement_of p orig > 0.1 then
          (let pullStrength = l_returnSpeed c * (1 + displacement_of p orig * 0.01)
           in ((ox - x) * pullStrength, (oy - y) * pullStrength, (oz - z) * pullStrength))
        else (0, 0, 0))"

definition jitter_accel :: "frame \<Rightarrow> vec3 \<Rightarrow> vec3" where
  "jitter_accel c p =
     (case p of (x, y, z) \<Rightarrow>
        if l_noiseAmount c > 0 then
          (noise3D (x * 0.01 + l_time c * 0.2) (y * 0.01) (z * 0.01) * l_noiseAmount c * 0.01,
           noise3D (x * 0.01) (y * 0.01 + l_time c * 0.2) (z * 0.01) * l_noiseAmount c * 0.01,
           noise3D (x * 0.01) (y * 0.01) (z * 0.01 + l_time c * 0.2) * l_noiseAmount c * 0.01)
        else (0, 0, 0))"

definition vadd :: "vec3 \<Rightarrow> vec3 \<Rightarrow> vec3" where
  "vadd a b = (case (a, b) of ((a1, a2, a3), (b1, b2, b3)) \<Rightarrow> (a1 + b1, a2 + b2, a3 + b3))"

definition vscale :: "vec3 \<Rightarrow> real \<Rightarrow> vec3" where
  "vscale a k = (case a of (a1, a2, a3) \<Rightarrow> (a1 * k, a2 * k, a3 * k))"

text \<open>The velocity of a particle after all forces of a frame, before damping.\<close>

definition boosted :: "frame \<Rightarrow> vec3 \<Rightarrow> vec3 \<Rightarrow> vec3 \<Rightarrow> vec3" where
  "boosted c p orig v =
     vadd (vadd (vadd (vadd v (interaction_accel c p)) (wind_accel c p orig))
        (return_accel c p orig)) (jitter_accel c p)"

definition ambient_accel :: "frame \<Rightarrow> vec3 \<Rightarrow> vec3 \<Rightarrow> vec3" where
  "ambient_accel c p orig =
     vadd (vadd (wind_accel c p orig) (return_accel c p orig)) (jitter_accel c p)"

text \<open>The arrays as \<^verbatim>\<open>createParticles\<close> allocates them (three entries for each particle;
  nothing resizes them afterwards), and the point clouds of the three shapes.\<close>

definition arrays_ok :: "ParticleSimulation \<Rightarrow> bool" where
  "arrays_ok s \<longleftrightarrow>
     length (positions s) = particleCount (config s) * 3 \<and>
     length (originalPositions s) = particleCount (config s) * 3 \<and>
     length (velocities s) = particleCount (config s) * 3"

definition shapes_ok :: "ParticleSimulation \<Rightarrow> bool" where
  "shapes_ok s \<longleftrightarrow>
     (\<forall>name \<in> set shapeOrder.
        \<exists>t. shapes s name = Some t \<and> length t = particleCount (config s) * 3)"

text \<open>
  For the return spring: the displacement of particle \<open>i\<close>; the strength of the pull at
  displacement \<open>d\<close> (none up to 0.1); a simulation with no interaction force, no wind, no
  turbulence and no jitter; a particle that moves along the line to its origin position,
  its velocity being \<open>c\<close> times the vector from its position to its origin position
  (\<open>c = 0\<close>: at rest); and repeated calls of \<^verbatim>\<open>updateParticles\<close>, each with its time,
  pointer, random draw and audio time.
\<close>

definition vsub :: "vec3 \<Rightarrow> vec3 \<Rightarrow> vec3" where
  "vsub a b = (case (a, b) of ((a1, a2, a3), (b1, b2, b3)) \<Rightarrow> (a1 - b1, a2 - b2, a3 - b3))"

definition displacement_at :: "ParticleSimulation \<Rightarrow> nat \<Rightarrow> real" where
  "displacement_at s i
     = displacement_of (triple (positions s) i) (triple (originalPositions s) i)"

definition pull_factor :: "ParticleSimulation \<Rightarrow> real \<Rightarrow> real" where
  "pull_factor s d = (if d > 0.1 then returnSpeed (config s) * (1 + d * 0.01) else 0)"

definition calm :: "ParticleSimulation \<Rightarrow> bool" where
  "calm s \<longleftrightarrow>
     mouseForce (config s) = 0 \<and> windStrength (config s) = 0 \<and>
     noiseAmount (config s) = 0 \<and> windTurbulence (config s) = 0"

definition homeward :: "ParticleSimulation \<Rightarrow> nat \<Rightarrow> real \<Rightarrow> bool" where
  "homeward s i c \<longleftrightarrow>
     triple (velocities s) i
       = vscale (vsub (triple (originalPositions s) i) (triple (positions s) i)) c"

text \<open>The spring does not overshoot: the pull at displacement \<open>D\<close> and what damping
  keeps of a step of relative size \<open>\<sigma>\<close> stay within \<open>\<sigma> < 1\<close>, and the particle starts
  within displacement \<open>D\<close>, moving homewards no faster than that.\<close>

definition settling :: "ParticleSimulation \<Rightarrow> nat \<Rightarrow> real \<Rightarrow> real \<Rightarrow> real \<Rightarrow> bool" where
  "settling s i \<sigma> D c \<longleftrightarrow>
     0 \<le> returnSpeed (config s) \<and> 0 \<le> damping (config s) \<and> 0 \<le> \<sigma> \<and> \<sigma> < 1 \<and>
     returnSpeed (config s) * (1 + D * 0.01) + damping (config s) * \<sigma> / (1 - \<sigma>) \<le> \<sigma> \<and>
     homeward s i c \<and> 0 \<le> c \<and>
     pull_factor s (displacement_at s i) + c \<le> \<sigma> \<and>
     displacement_at s i \<le> D"

fun frames ::
  "(real \<times> vec3 \<times> real \<times> real) list \<Rightarrow> ParticleSimulation \<Rightarrow> fault + ParticleSimulation" where
  "frames [] s = Inr s"
| "frames ((time, mousePos, rnd, now) # fs) s
     = bind_fault (updateParticles time mousePos rnd now s) (frames fs)"



subsection \<open>Concrete states\<close>

text \<open>The configuration of the constructor, with one particle.\<close>

definition demo_config :: sim_config where
  "demo_config =
     \<lparr> particleCount = 1, mouseRadius = 150, mouseForce = 1.0, returnSpeed = 0.0009,
       rotationSpeed = 0.003, noiseAmount = 0.1, windStrength = 0.09,
       windTurbulence = 0.2, damping = 0.96 \<rparr>"

definition demo_shapes :: "string \<Rightarrow> real list option" where
  "demo_shapes =
     [''sphere'' \<mapsto> [1, 0, 0], ''cube'' \<mapsto> [4, 5, 6], ''pyramid'' \<mapsto> [7, 8, 9]]"

definition demo_state :: ParticleSimulation where
  "demo_state =
     \<lparr> config = demo_config, isMouseDown = False, soundManager = new_SoundManager,
       currentShape = ''sphere'', isTransforming = False, cooldown = 0,
       shapes = demo_shapes, isFrozen = False, isInverted = False,
       positions = [1, 0, 0], originalPositions = [1, 0, 0], velocities = [0, 0, 0],
       rotation_y = 0, uTime = 0 \<rparr>"

text \<open>A manager after \<^verbatim>\<open>init\<close>, with the audio context running.\<close>

definition demo_sound :: SoundManager where
  "demo_sound = init Running new_SoundManager"

text \<open>One particle one unit away from the pointer, a strong and narrow interaction
  force, and an initialised sound manager.\<close>

definition loud_state :: ParticleSimulation where
  "loud_state =
     demo_state\<lparr> config := demo_config\<lparr> mouseForce := 100, mouseRadius := 2 \<rparr>,
                  soundManager := demo_sound \<rparr>"

text \<open>No interaction force, no wind strength, no jitter; the particle sits on its
  origin position and moves.\<close>

definition drifting_state :: ParticleSimulation where
  "drifting_state =
     demo_state\<lparr> config := demo_config\<lparr> mouseForce := 0, windStrength := 0,
                                          noiseAmount := 0 \<rparr>,
                  velocities := [1, 0, 0] \<rparr>"

text \<open>A particle at rest one unit away from its origin position, in a calm simulation
  with a weak spring.\<close>

definition calm_state :: ParticleSimulation where
  "calm_state =
     demo_state\<lparr> config := demo_config\<lparr> mouseForce := 0, windStrength := 0,
                                          noiseAmount := 0, windTurbulence := 0,
                                          returnSpeed := 0.0003 \<rparr>,
                  positions := [2, 0, 0] \<rparr>"

text \<open>The same particle with a spring so stiff that one call takes it onto its origin
  position.\<close>

definition stiff_state :: ParticleSimulation where
  "stiff_state =
     calm_state\<lparr> config := (config calm_state)\<lparr> returnSpeed := 100 / 101 \<rparr> \<rparr>"

text \<open>No interaction force, no wind strength, no jitter, turbulence as the constructor
  sets it; the particle is at rest, 0.05 away from its origin position.\<close>

definition gusty_state :: ParticleSimulation where
  "gusty_state =
     demo_state\<lparr> config := demo_config\<lparr> mouseForce := 0, windStrength := 0,
                                          noiseAmount := 0 \<rparr>,
                  positions := [105 / 100, 0, 0] \<rparr>"

section \<open>Faults\<close>

lemma bind_fault_Inr [simp]: "bind_fault (Inr a) f = f a"
  by (simp add: bind_fault_def)

lemma bind_fault_Inl [simp]: "bind_fault (Inl e) f = Inl e"
  by (simp add: bind_fault_def)

section \<open>Properties of the SoundManager\<close>

lemma sm_inv_new: "sm_inv new_SoundManager"
  by (simp add: sm_inv_def new_SoundManager_def)

lemma sm_inv_step:
  assumes "sm_inv s"
  shows "\<exists>s1. sm_step e s = Inr s1 \<and> sm_inv s1"
proof (cases e)
  case (Trigger now intensity)
  with assms show ?thesis
    by (auto simp: sm_inv_def triggerInteractionSound_def playNote_def Let_def
             split: option.splits)
next
  case (TimeoutFires k)
  with assms show ?thesis
    by (auto simp: sm_inv_def timeoutCallback_def)
next
  case ToggleMute
  with assms show ?thesis
    by (auto simp: sm_inv_def toggleMute_def Let_def split: option.splits)
next
  case (Init c)
  with assms show ?thesis
    by (auto simp: sm_inv_def init_def)
next
  case (SetInverted b)
  with assms show ?thesis
    by (auto simp: sm_inv_def setInverted_def)
qed

lemma sm_inv_run:
  "sm_inv s \<Longrightarrow> \<exists>s1. sm_run es s = Inr s1 \<and> sm_inv s1"
proof (induction es arbitrary: s)
  case Nil
  then show ?case by simp
next
  case (Cons e es)
  from sm_inv_step [OF Cons.prems, of e]
  obtain s1 where s1: "sm_step e s = Inr s1" "sm_inv s1" by blast
  from Cons.IH [OF s1(2)] s1(1) show ?case by simp
qed

lemma sm_run_append:
  "sm_run (es @ fs) s = (case sm_run es s of Inl f \<Rightarrow> Inl f | Inr s1 \<Rightarrow> sm_run fs s1)"
  by (induction es arbitrary: s) (auto split: sum.splits)

text \<open>A step changes the started notes and lastNoteTime only by a trigger.\<close>

lemma step_blocked:
  assumes "sm_step e s = Inr s1" and "sm_inv s"
    and "\<forall>t \<in> set (trigger_times [e]). t - lastNoteTime s < 0.15"
  shows "started s1 = started s \<and> lastNoteTime s1 = lastNoteTime s"
  using assms
  by (cases e)
     (auto simp: sm_inv_def triggerInteractionSound_def playNote_def Let_def
        timeoutCallback_def toggleMute_def init_def setInverted_def
        split: option.splits if_splits)

lemma trigger_times_Cons: "set (trigger_times (e # es)) = set (trigger_times [e]) \<union> set (trigger_times es)"
  by (cases e) auto

lemma run_blocked:
  assumes "sm_inv s" and "sm_run es s = Inr s1"
    and "\<forall>t \<in> set (trigger_times es). t - lastNoteTime s < 0.15"
  shows "started s1 = started s \<and> lastNoteTime s1 = lastNoteTime s"
  using assms
proof (induction es arbitrary: s)
  case Nil
  then show ?case by simp
next
  case (Cons e es)
  from sm_inv_step [OF Cons.prems(1), of e]
  obtain s2 where s2: "sm_step e s = Inr s2" "sm_inv s2" by blast
  have b: "\<forall>t \<in> set (trigger_times [e]). t - lastNoteTime s < 0.15"
    using Cons.prems(3) trigger_times_Cons [of e es] by blast
  from step_blocked [OF s2(1) Cons.prems(1) b]
  have eq: "started s2 = started s" "lastNoteTime s2 = lastNoteTime s" by simp_all
  have r: "sm_run es s2 = Inr s1" using Cons.prems(2) s2(1) by simp
  have "\<forall>t \<in> set (trigger_times es). t - lastNoteTime s2 < 0.15"
    using Cons.prems(3) trigger_times_Cons [of e es] eq by auto
  from Cons.IH [OF s2(2) r this] eq show ?case by simp
qed

lemma step_one_note:
  assumes "sm_step e s = Inr s1" and "sm_inv s"
  shows "(started s1 = started s \<and> lastNoteTime s1 = lastNoteTime s) \<or>
         (\<exists>t \<in> set (trigger_times [e]). started s1 = started s @ [t] \<and> lastNoteTime s1 = t)"
  using assms
  by (cases e)
     (auto simp: sm_inv_def triggerInteractionSound_def playNote_def Let_def
        timeoutCallback_def toggleMute_def init_def setInverted_def
        split: option.splits if_splits)

lemma run_window:
  assumes "sm_inv s" and "sm_run es s = Inr s1"
    and "\<forall>t \<in> set (trigger_times es). t1 \<le> t \<and> t \<le> t2" and "t2 - t1 < 0.15"
  shows "length (started s1) \<le> length (started s) + 1"
  using assms
proof (induction es arbitrary: s)
  case Nil
  then show ?case by simp
next
  case (Cons e es)
  from sm_inv_step [OF Cons.prems(1), of e]
  obtain s2 where s2: "sm_step e s = Inr s2" "sm_inv s2" by blast
  have r: "sm_run es s2 = Inr s1" using Cons.prems(2) s2(1) by simp
  have w: "\<forall>t \<in> set (trigger_times es). t1 \<le> t \<and> t \<le> t2"
    using Cons.prems(3) trigger_times_Cons [of e es] by blast
  from step_one_note [OF s2(1) Cons.prems(1)]
  show ?case
  proof
    assume "started s2 = started s \<and> lastNoteTime s2 = lastNoteTime s"
    with Cons.IH [OF s2(2) r w Cons.prems(4)] show ?thesis by simp
  next
    assume "\<exists>t \<in> set (trigger_times [e]). started s2 = started s @ [t] \<and> lastNoteTime s2 = t"
    then obtain t where t: "t \<in> set (trigger_times [e])" "started s2 = started s @ [t]"
      "lastNoteTime s2 = t" by blast
    have "t1 \<le> t" using t(1) Cons.prems(3) trigger_times_Cons [of e es] by blast
    with w Cons.prems(4) t(3)
    have "\<forall>u \<in> set (trigger_times es). u - lastNoteTime s2 < 0.15" by auto
    from run_blocked [OF s2(2) r this] t(2) show ?thesis by simp
  qed
qed

text \<open>
  Claim C9. Whatever the energy, a call to \<^verbatim>\<open>triggerInteractionSound\<close> on a manager that
  is not initialised, or is muted, returns normally and leaves the whole state as it was:
  no field changes, no note is started, no callback is scheduled.
\<close>

theorem trigger_silent_when_unavailable:
  "\<not> isInitialized s \<or> isMuted s \<Longrightarrow> triggerInteractionSound now intensity s = Inr s"
  by (auto simp: triggerInteractionSound_def)

theorem trigger_silent_when_unavailable_witness:
  "\<not> isInitialized new_SoundManager \<and>
   triggerInteractionSound 7 42 new_SoundManager = Inr new_SoundManager \<and>
   isInitialized (demo_sound\<lparr>isMuted := True\<rparr>) \<and> isMuted (demo_sound\<lparr>isMuted := True\<rparr>) \<and>
   triggerInteractionSound 7 42 (demo_sound\<lparr>isMuted := True\<rparr>)
     = Inr (demo_sound\<lparr>isMuted := True\<rparr>)"
proof -
  have h: "\<not> isInitialized new_SoundManager"
    by (simp add: new_SoundManager_def)
  have m: "isInitialized (demo_sound\<lparr>isMuted := True\<rparr>)" "isMuted (demo_sound\<lparr>isMuted := True\<rparr>)"
    by (simp_all add: demo_sound_def init_def new_SoundManager_def)
  from trigger_silent_when_unavailable [of new_SoundManager 7 42]
    trigger_silent_when_unavailable [of "demo_sound\<lparr>isMuted := True\<rparr>" 7 42] h m
  show ?thesis by blast
qed

text \<open>
  Claim C5. Start from a fresh manager and let anything happen to it, in any order and any
  number of times: calls to \<^verbatim>\<open>triggerInteractionSound\<close>, callbacks of expired notes,
  \<^verbatim>\<open>init\<close>, \<^verbatim>\<open>toggleMute\<close>, \<^verbatim>\<open>setInverted\<close>. No call throws, and after every event
  the number of active voices lies between 0 and \<open>maxVoices = 8\<close>. Moreover, when two
  calls happen at audio times \<open>t1\<close> and \<open>t2\<close> less than \<open>noteDensity = 0.15\<close> seconds
  apart, and the calls between them happen at times between \<open>t1\<close> and \<open>t2\<close>, then from
  the first call to the second, both included, at most one note is started.
\<close>

theorem voices_bounded_and_rate_limited:
  "\<exists>s1. sm_run es new_SoundManager = Inr s1 \<and>
         0 \<le> activeVoices s1 \<and> activeVoices s1 \<le> maxVoices s1 \<and> maxVoices s1 = 8 \<and>
         (\<forall>t1 e1 mid t2 e2 s2.
            t2 - t1 < 0.15 \<and> (\<forall>t \<in> set (trigger_times mid). t1 \<le> t \<and> t \<le> t2) \<and> t1 \<le> t2 \<and>
            sm_run (Trigger t1 e1 # mid @ [Trigger t2 e2]) s1 = Inr s2
            \<longrightarrow> length (started s2) \<le> length (started s1) + 1)"
proof -
  from sm_inv_run [OF sm_inv_new, of es]
  obtain s1 where s1: "sm_run es new_SoundManager = Inr s1" "sm_inv s1" by blast
  have "length (started s2) \<le> length (started s1) + 1"
    if a: "t2 - t1 < 0.15" "\<forall>t \<in> set (trigger_times mid). t1 \<le> t \<and> t \<le> t2" "t1 \<le> t2"
      "sm_run (Trigger t1 e1 # mid @ [Trigger t2 e2]) s1 = Inr s2"
    for t1 e1 mid t2 e2 s2
  proof -
    have "trigger_times (mid @ [Trigger t2 e2]) = trigger_times mid @ [t2]"
      by (induction mid rule: trigger_times.induct) simp_all
    then have "\<forall>t \<in> set (trigger_times (Trigger t1 e1 # mid @ [Trigger t2 e2])). t1 \<le> t \<and> t \<le> t2"
      using a(2,3) by auto
    from run_window [OF s1(2) a(4) this a(1)] show ?thesis .
  qed
  with s1 show ?thesis
    by (intro exI [of _ s1]) (auto simp: sm_inv_def)
qed

theorem voices_bounded_and_rate_limited_witness:
  "\<exists>s1 s2. sm_run [Init Running, Trigger 1 6] new_SoundManager = Inr s1 \<and>
           activeVoices s1 = 1 \<and> maxVoices s1 = 8 \<and>
           sm_run [Trigger 2 6, Trigger (21 / 10) 7] s1 = Inr s2 \<and>
           (21 / 10 :: real) - 2 < 0.15 \<and>
           length (started s2) \<le> length (started s1) + 1 \<and>
           started s2 = [1, 2]"
proof -
  from voices_bounded_and_rate_limited [of "[Init Running, Trigger 1 6]"]
  obtain s1 where s1: "sm_run [Init Running, Trigger 1 6] new_SoundManager = Inr s1"
    and w: "\<And>t1 e1 mid t2 e2 s2.
            t2 - t1 < 0.15 \<and> (\<forall>t \<in> set (trigger_times mid). t1 \<le> t \<and> t \<le> t2) \<and> t1 \<le> t2 \<and>
            sm_run (Trigger t1 e1 # mid @ [Trigger t2 e2]) s1 = Inr s2
            \<Longrightarrow> length (started s2) \<le> length (started s1) + 1"
    by blast
  have v: "activeVoices s1 = 1" "maxVoices s1 = 8" "lastNoteTime s1 = 1"
    "isInitialized s1" "\<not> isMuted s1" "ctx s1 = Some Running" "noteDensity s1 = 0.15"
    "masterGain s1 = Some 0.8" "started s1 = [1]"
    using s1
    by (auto simp: new_SoundManager_def init_def triggerInteractionSound_def playNote_def)
  obtain s2 where r: "sm_run [Trigger 2 6, Trigger (21 / 10) 7] s1 = Inr s2"
    and n: "started s2 = [1, 2]"
    using v by (simp add: triggerInteractionSound_def playNote_def)
  have d: "(21 / 10 :: real) - 2 < 0.15" by simp
  from w [of "21 / 10" 2 "[]" 6 7 s2] r d
  have "length (started s2) \<le> length (started s1) + 1" by simp
  with s1 v r d n show ?thesis by blast
qed

section \<open>Properties of the noise function\<close>











section \<open>Properties of resetParticles\<close>

lemma reset_prefix:
  assumes "k \<le> length orig"
  shows "\<exists>p' v'.
           fold (\<lambda>i r. bind_fault r (reset_iteration orig i)) [0 ..< k] (Inr (p, v))
             = Inr (p', v') \<and>
           length p' = length p \<and> length v' = length v \<and>
           (\<forall>j<k. j < length p \<longrightarrow> p' ! j = orig ! j) \<and>
           (\<forall>j<k. j < length v \<longrightarrow> v' ! j = 0) \<and>
           (\<forall>j\<ge>k. p' ! j = p ! j \<and> v' ! j = v ! j)"
  using assms
proof (induction k)
  case 0
  then show ?case by simp
next
  case (Suc k)
  then have "k \<le> length orig" and lt: "k < length orig" by simp_all
  from Suc.IH [OF this(1)] obtain p' v' where
    run: "fold (\<lambda>i r. bind_fault r (reset_iteration orig i)) [0 ..< k] (Inr (p, v))
            = Inr (p', v')"
    and inv: "length p' = length p" "length v' = length v"
      "\<forall>j<k. j < length p \<longrightarrow> p' ! j = orig ! j"
      "\<forall>j<k. j < length v \<longrightarrow> v' ! j = 0"
      "\<forall>j\<ge>k. p' ! j = p ! j \<and> v' ! j = v ! j"
    by blast
  have f: "fold (\<lambda>i r. bind_fault r (reset_iteration orig i)) [0 ..< Suc k] (Inr (p, v))
            = Inr (p'[k := orig ! k], v'[k := 0])"
    using lt by (simp add: run reset_iteration_def)
  show ?case
    unfolding f using inv
    by (intro exI [of _ "p'[k := orig ! k]"] exI [of _ "v'[k := 0]"])
       (auto simp: nth_list_update less_Suc_eq)
qed

lemma resetParticles_eq:
  assumes "arrays_ok s"
  shows "resetParticles s
           = Inr (s\<lparr> positions := originalPositions s,
                    velocities := replicate (particleCount (config s) * 3) 0 \<rparr>)"
proof -
  let ?n = "particleCount (config s) * 3"
  have len: "length (positions s) = ?n" "length (originalPositions s) = ?n"
    "length (velocities s) = ?n"
    using assms by (simp_all add: arrays_ok_def)
  from reset_prefix [of ?n "originalPositions s" "positions s" "velocities s"] len
  obtain p' v' where
    run: "fold (\<lambda>i r. bind_fault r (reset_iteration (originalPositions s) i)) [0 ..< ?n]
            (Inr (positions s, velocities s)) = Inr (p', v')"
    and inv: "length p' = ?n" "length v' = ?n"
      "\<forall>j<?n. p' ! j = originalPositions s ! j" "\<forall>j<?n. v' ! j = 0"
    by auto
  have "p' = originalPositions s"
    using inv len by (intro nth_equalityI) simp_all
  moreover have "v' = replicate ?n 0"
    using inv by (intro nth_equalityI) simp_all
  ultimately show ?thesis
    by (simp add: resetParticles_def run)
qed

text \<open>
  Claim C7. On arrays of the allocated length, \<^verbatim>\<open>resetParticles\<close> returns normally with
  every position equal to its origin position and every velocity entry exactly zero; the
  origin positions are untouched, and a second reset changes nothing any more.
\<close>

theorem reset_snaps_and_is_idempotent:
  assumes "arrays_ok s"
  shows "\<exists>s1. resetParticles s = Inr s1 \<and>
              positions s1 = originalPositions s1 \<and>
              (\<forall>j < length (velocities s1). velocities s1 ! j = 0) \<and>
              length (velocities s1) = length (velocities s) \<and>
              originalPositions s1 = originalPositions s \<and>
              resetParticles s1 = Inr s1"
proof -
  let ?s1 = "s\<lparr> positions := originalPositions s,
                velocities := replicate (particleCount (config s) * 3) 0 \<rparr>"
  have ok: "arrays_ok ?s1" using assms by (simp add: arrays_ok_def)
  have "resetParticles ?s1 = Inr ?s1"
    by (simp add: resetParticles_eq [OF ok])
  then show ?thesis
    using assms by (simp add: resetParticles_eq [OF assms] arrays_ok_def)
qed

theorem reset_snaps_and_is_idempotent_witness:
  "arrays_ok (demo_state\<lparr> positions := [3, 4, 5], velocities := [1, 2, 3] \<rparr>) \<and>
   (\<exists>s1. resetParticles (demo_state\<lparr> positions := [3, 4, 5], velocities := [1, 2, 3] \<rparr>) = Inr s1 \<and>
         positions s1 = [1, 0, 0] \<and> velocities s1 = [0, 0, 0] \<and>
         resetParticles s1 = Inr s1)"
proof -
  let ?s = "demo_state\<lparr> positions := [3, 4, 5], velocities := [1, 2, 3] \<rparr>"
  have ok: "arrays_ok ?s"
    by (simp add: arrays_ok_def demo_state_def demo_config_def)
  from reset_snaps_and_is_idempotent [OF ok] obtain s1 where
    r: "resetParticles ?s = Inr s1" "positions s1 = originalPositions s1"
      "\<forall>j < length (velocities s1). velocities s1 ! j = 0"
      "length (velocities s1) = length (velocities ?s)"
      "originalPositions s1 = originalPositions ?s" "resetParticles s1 = Inr s1"
    by blast
  have "positions s1 = [1, 0, 0]" using r(2,5) by (simp add: demo_state_def)
  moreover have "velocities s1 = [0, 0, 0]"
    using r(3,4) by (intro nth_equalityI) (auto simp: demo_state_def nth_Cons')
  ultimately show ?thesis using ok r(1,6) by blast
qed

section \<open>Properties of toggleShape\<close>

lemma copy_prefix:
  assumes "k \<le> length t"
  shows "\<exists>o'.
           fold (\<lambda>i r. bind_fault r (copy_iteration (Some t) i)) [0 ..< k] (Inr orig)
             = Inr o' \<and>
           length o' = length orig \<and>
           (\<forall>j<k. j < length orig \<longrightarrow> o' ! j = t ! j) \<and>
           (\<forall>j\<ge>k. o' ! j = orig ! j)"
  using assms
proof (induction k)
  case 0
  then show ?case by simp
next
  case (Suc k)
  then have "k \<le> length t" and lt: "k < length t" by simp_all
  from Suc.IH [OF this(1)] obtain o' where
    run: "fold (\<lambda>i r. bind_fault r (copy_iteration (Some t) i)) [0 ..< k] (Inr orig) = Inr o'"
    and inv: "length o' = length orig"
      "\<forall>j<k. j < length orig \<longrightarrow> o' ! j = t ! j" "\<forall>j\<ge>k. o' ! j = orig ! j"
    by blast
  have f: "fold (\<lambda>i r. bind_fault r (copy_iteration (Some t) i)) [0 ..< Suc k] (Inr orig)
            = Inr (o'[k := t ! k])"
    using lt by (simp add: run copy_iteration_def)
  show ?case
    unfolding f using inv
    by (intro exI [of _ "o'[k := t ! k]"]) (auto simp: nth_list_update less_Suc_eq)
qed

lemma next_shape_in_order:
  "shapeOrder ! nat ((indexOf shapeOrder a + 1) mod int (length shapeOrder)) \<in> set shapeOrder"
  by (simp add: shapeOrder_def Let_def)

lemma toggleShape_eq:
  assumes "arrays_ok s" and "shapes_ok s"
    and nx: "nx = shapeOrder ! nat ((indexOf shapeOrder (currentShape s) + 1) mod int (length shapeOrder))"
  shows "\<exists>t. shapes s nx = Some t \<and>
             toggleShape s
               = Inr (s\<lparr> currentShape := nx, originalPositions := t, isTransforming := True \<rparr>)"
proof -
  let ?n = "particleCount (config s) * 3"
  have "nx \<in> set shapeOrder" unfolding nx by (rule next_shape_in_order)
  with assms(2) obtain t where t: "shapes s nx = Some t" "length t = ?n"
    by (auto simp: shapes_ok_def)
  have len: "length (originalPositions s) = ?n" using assms(1) by (simp add: arrays_ok_def)
  from copy_prefix [of ?n t "originalPositions s"] t(2) len
  obtain o' where
    run: "fold (\<lambda>i r. bind_fault r (copy_iteration (Some t) i)) [0 ..< ?n]
            (Inr (originalPositions s)) = Inr o'"
    and inv: "length o' = ?n" "\<forall>j<?n. o' ! j = t ! j"
    by auto
  have "o' = t" using inv t(2) by (intro nth_equalityI) simp_all
  then show ?thesis
    using t(1) run by (simp add: toggleShape_def Let_def nx [symmetric])
qed

text \<open>
  Claim C6. On a simulation whose arrays and shape clouds have the allocated length,
  \<^verbatim>\<open>toggleShape\<close> returns normally; the position and velocity arrays are what they were,
  the origin positions are now the point cloud of the new current shape, and besides
  these only \<open>currentShape\<close> and the flag \<open>isTransforming\<close> are written. The current shape
  moves from sphere to cube, from cube to pyramid and from pyramid to sphere.
\<close>

theorem toggleShape_replaces_only_origin:
  assumes "arrays_ok s" and "shapes_ok s"
  shows "\<exists>s1. toggleShape s = Inr s1 \<and>
              positions s1 = positions s \<and> velocities s1 = velocities s \<and>
              shapes s (currentShape s1) = Some (originalPositions s1) \<and>
              s1 = s\<lparr> currentShape := currentShape s1,
                      originalPositions := originalPositions s1,
                      isTransforming := True \<rparr> \<and>
              (currentShape s = ''sphere'' \<longrightarrow> currentShape s1 = ''cube'') \<and>
              (currentShape s = ''cube'' \<longrightarrow> currentShape s1 = ''pyramid'') \<and>
              (currentShape s = ''pyramid'' \<longrightarrow> currentShape s1 = ''sphere'')"
proof -
  define nx where
    "nx = shapeOrder ! nat ((indexOf shapeOrder (currentShape s) + 1) mod int (length shapeOrder))"
  from toggleShape_eq [OF assms nx_def] obtain t where
    t: "shapes s nx = Some t"
      "toggleShape s
         = Inr (s\<lparr> currentShape := nx, originalPositions := t, isTransforming := True \<rparr>)"
    by blast
  have c: "currentShape s = ''sphere'' \<longrightarrow> nx = ''cube''"
    "currentShape s = ''cube'' \<longrightarrow> nx = ''pyramid''"
    "currentShape s = ''pyramid'' \<longrightarrow> nx = ''sphere''"
    by (simp_all add: nx_def shapeOrder_def)
  show ?thesis
    using t c by simp
qed

theorem toggleShape_replaces_only_origin_witness:
  "arrays_ok demo_state \<and> shapes_ok demo_state \<and> currentShape demo_state = ''sphere'' \<and>
   (\<exists>s1. toggleShape demo_state = Inr s1 \<and>
         positions s1 = [1, 0, 0] \<and> velocities s1 = [0, 0, 0] \<and>
         originalPositions s1 = [4, 5, 6] \<and> currentShape s1 = ''cube'')"
proof -
  have ok: "arrays_ok demo_state" "shapes_ok demo_state"
    by (simp_all add: arrays_ok_def shapes_ok_def demo_state_def demo_config_def
          demo_shapes_def shapeOrder_def)
  have cs: "currentShape demo_state = ''sphere''" by (simp add: demo_state_def)
  from toggleShape_replaces_only_origin [OF ok] obtain s1 where
    r: "toggleShape demo_state = Inr s1" "positions s1 = positions demo_state"
      "velocities s1 = velocities demo_state"
      "shapes demo_state (currentShape s1) = Some (originalPositions s1)"
      "currentShape demo_state = ''sphere'' \<longrightarrow> currentShape s1 = ''cube''"
    by blast
  have n: "currentShape s1 = ''cube''" using r(5) cs by simp
  have "originalPositions s1 = [4, 5, 6]"
    using r(4) by (simp add: n demo_state_def demo_shapes_def)
  with r(1,2,3) n ok cs show ?thesis by (simp add: demo_state_def)
qed


section \<open>The loop of updateParticles\<close>

lemma add3:
  "i * 3 + 2 < length V \<Longrightarrow>
   add_at (add_at (add_at V (i * 3) a) (i * 3 + 1) b) (i * 3 + 2) d
     = put3 V i (vadd (triple V i) (a, b, d))"
  by (simp add: add_at_def put3_def vadd_def triple_def)

lemma mul3:
  "i * 3 + 2 < length V \<Longrightarrow>
   mul_at (mul_at (mul_at V (i * 3) k) (i * 3 + 1) k) (i * 3 + 2) k
     = put3 V i (vscale (triple V i) k)"
  by (simp add: mul_at_def put3_def vscale_def triple_def)

lemma length_put3 [simp]: "length (put3 V i a) = length V"
  by (cases a) (simp add: put3_def)

lemma triple_put3 [simp]: "i * 3 + 2 < length V \<Longrightarrow> triple (put3 V i a) i = a"
  by (cases a) (simp add: put3_def triple_def)

lemma put3_put3 [simp]: "put3 (put3 V i a) i b = put3 V i b"
  by (cases a; cases b) (simp add: put3_def list_update_swap)

lemma triple_put3_other: "i \<noteq> j \<Longrightarrow> triple (put3 V i a) j = triple V j"
  by (cases a) (auto simp: put3_def triple_def)

lemma nth_put3_above: "i * 3 + 2 < j \<Longrightarrow> put3 V i a ! j = V ! j"
  by (cases a) (simp add: put3_def)

lemma interaction_eq:
  assumes "i * 3 + 2 < length V" and "triple P i = (x, y, z)" and "l_mousePos c = (mx, my, mz)"
  shows "interaction c (i * 3) (x - mx) (y - my) (z - mz)
           (sqrt ((x - mx) * (x - mx) + (y - my) * (y - my) + (z - mz) * (z - mz))) (V, T)
         = Inr (put3 V i (vadd (triple V i) (interaction_accel c (triple P i))),
                T + energy_of c (triple P i))"
proof (cases "in_reach c (x, y, z)")
  case True
  then have d: "displacement_of (x, y, z) (mx, my, mz) \<noteq> 0" "l_mouseRadius c \<noteq> 0"
    using assms(3) by (auto simp: in_reach_def)
  show ?thesis
    using True d assms add3 [OF assms(1)]
    by (simp add: interaction_def bind_fault_def js_div_def Let_def in_reach_def
          interaction_accel_def energy_of_def repulsion_def displacement_of_def)
next
  case False
  have "put3 V i (vadd (triple V i) (0, 0, 0)) = V"
    using assms(1) by (simp add: put3_def vadd_def triple_def)
  then show ?thesis
    using False assms
    by (auto simp add: interaction_def in_reach_def
          interaction_accel_def energy_of_def displacement_of_def)
qed

lemma put3_zero: "i * 3 + 2 < length V \<Longrightarrow> put3 V i (vadd (triple V i) (0, 0, 0)) = V"
  by (simp add: put3_def vadd_def triple_def)

lemma wind_eq:
  assumes "i * 3 + 2 < length V"
  shows "wind c (i * 3) x y z (displacement_of (x, y, z) orig) V
         = put3 V i (vadd (triple V i) (wind_accel c (x, y, z) orig))"
  using add3 [OF assms] by (simp add: wind_def wind_accel_def Let_def)

lemma pull_eq:
  assumes "i * 3 + 2 < length V"
  shows "pull c (i * 3) (x, y, z) (ox, oy, oz) (displacement_of (x, y, z) (ox, oy, oz)) V
         = put3 V i (vadd (triple V i) (return_accel c (x, y, z) (ox, oy, oz)))"
  using add3 [OF assms] put3_zero [OF assms]
  by (simp add: pull_def return_accel_def Let_def)

lemma jitter_eq:
  assumes "i * 3 + 2 < length V"
  shows "jitter c (i * 3) x y z V = put3 V i (vadd (triple V i) (jitter_accel c (x, y, z)))"
  using add3 [OF assms] put3_zero [OF assms]
  by (simp add: jitter_def jitter_accel_def Let_def)

lemma move_eq:
  assumes "i * 3 + 2 < length P"
  shows "add_at (add_at (add_at P (i * 3) (N ! (i * 3))) (i * 3 + 1) (N ! (i * 3 + 1)))
           (i * 3 + 2) (N ! (i * 3 + 2))
         = put3 P i (vadd (triple P i) (triple N i))"
  using add3 [OF assms] by (simp add: triple_def)

lemma iteration_eq:
  assumes "i * 3 + 2 < length P" "i * 3 + 2 < length orig" "i * 3 + 2 < length V"
  shows "particle_iteration c orig i (P, V, T) =
           Inr (put3 P i (vadd (triple P i) (boosted c (triple P i) (triple orig i) (triple V i))),
                put3 V i (vscale (boosted c (triple P i) (triple orig i) (triple V i)) (l_damping c)),
                T + energy_of c (triple P i))"
proof -
  obtain x y z where p: "triple P i = (x, y, z)" by (cases "triple P i") auto
  obtain ox oy oz where o: "triple orig i = (ox, oy, oz)" by (cases "triple orig i") auto
  obtain mx my mz where m: "l_mousePos c = (mx, my, mz)" by (cases "l_mousePos c") auto
  have xs: "P ! (i * 3) = x" "P ! (i * 3 + 1) = y" "P ! (i * 3 + 2) = z"
    using p by (simp_all add: triple_def)
  have os: "orig ! (i * 3) = ox" "orig ! (i * 3 + 1) = oy" "orig ! (i * 3 + 2) = oz"
    using o by (simp_all add: triple_def)
  let ?V1 = "put3 V i (vadd (triple V i) (interaction_accel c (triple P i)))"
  have d: "sqrt ((x - ox) * (x - ox) + (y - oy) * (y - oy) + (z - oz) * (z - oz))
             = displacement_of (x, y, z) (ox, oy, oz)"
    by (simp add: displacement_of_def)
  have l1: "i * 3 + 2 < length ?V1" using assms(3) by simp
  let ?V2 = "put3 V i (vadd (vadd (triple V i) (interaction_accel c (triple P i)))
                        (wind_accel c (x, y, z) (ox, oy, oz)))"
  have w: "wind c (i * 3) x y z (displacement_of (x, y, z) (ox, oy, oz)) ?V1 = ?V2"
    using wind_eq [OF l1] assms(3) by simp
  let ?V3 = "put3 V i (vadd (vadd (vadd (triple V i) (interaction_accel c (triple P i)))
                        (wind_accel c (x, y, z) (ox, oy, oz))) (return_accel c (x, y, z) (ox, oy, oz)))"
  have l2: "i * 3 + 2 < length ?V2" using assms(3) by simp
  have r: "pull c (i * 3) (x, y, z) (ox, oy, oz) (displacement_of (x, y, z) (ox, oy, oz)) ?V2 = ?V3"
    using pull_eq [OF l2] assms(3) by simp
  let ?V4 = "put3 V i (boosted c (x, y, z) (ox, oy, oz) (triple V i))"
  have l3: "i * 3 + 2 < length ?V3" using assms(3) by simp
  have j: "jitter c (i * 3) x y z ?V3 = ?V4"
    using jitter_eq [OF l3] assms(3) by (simp add: boosted_def p)
  have l4: "i * 3 + 2 < length ?V4" using assms(3) by simp
  have mv: "add_at (add_at (add_at P (i * 3) (?V4 ! (i * 3))) (i * 3 + 1) (?V4 ! (i * 3 + 1)))
           (i * 3 + 2) (?V4 ! (i * 3 + 2))
         = put3 P i (vadd (triple P i) (boosted c (x, y, z) (ox, oy, oz) (triple V i)))"
    using move_eq [OF assms(1), of ?V4] assms(3) by simp
  have dm: "mul_at (mul_at (mul_at ?V4 (i * 3) (l_damping c)) (i * 3 + 1) (l_damping c))
              (i * 3 + 2) (l_damping c)
            = put3 V i (vscale (boosted c (x, y, z) (ox, oy, oz) (triple V i)) (l_damping c))"
    using mul3 [OF l4] assms(3) by simp
  have ia: "interaction c (i * 3) (x - mx) (y - my) (z - mz)
           (sqrt ((x - mx) * (x - mx) + (y - my) * (y - my) + (z - mz) * (z - mz))) (V, T)
         = Inr (?V1, T + energy_of c (triple P i))"
    by (rule interaction_eq [OF assms(3) p m])
  show ?thesis
    by (simp only: particle_iteration_def Let_def prod.case assms simp_thms if_False
          xs os m fst_conv snd_conv d ia [unfolded p] bind_fault_def sum.case
          w [unfolded p] r [unfolded p] j [unfolded p] mv [unfolded p] dm [unfolded p] p o)
qed

lemma triple_unchanged:
  "\<forall>j\<ge>k * 3. P' ! j = P ! j \<Longrightarrow> k \<le> i \<Longrightarrow> triple P' i = triple P i"
  by (simp add: triple_def)

lemma loop_prefix:
  assumes "k * 3 \<le> length P" "k * 3 \<le> length orig" "k * 3 \<le> length V"
  shows "\<exists>P' V'.
           fold (\<lambda>i r. bind_fault r (particle_iteration c orig i)) [0 ..< k] (Inr (P, V, T))
             = Inr (P', V', T + sum_list (map (\<lambda>i. energy_of c (triple P i)) [0 ..< k])) \<and>
           length P' = length P \<and> length V' = length V \<and>
           (\<forall>i<k. triple P' i
                     = vadd (triple P i) (boosted c (triple P i) (triple orig i) (triple V i)) \<and>
                   triple V' i
                     = vscale (boosted c (triple P i) (triple orig i) (triple V i)) (l_damping c)) \<and>
           (\<forall>j\<ge>k * 3. P' ! j = P ! j \<and> V' ! j = V ! j)"
  using assms
proof (induction k)
  case 0
  then show ?case by simp
next
  case (Suc k)
  then have le: "k * 3 \<le> length P" "k * 3 \<le> length orig" "k * 3 \<le> length V" 
    and lt: "k * 3 + 2 < length P" "k * 3 + 2 < length orig" "k * 3 + 2 < length V" by simp_all
  let ?E = "\<lambda>i. energy_of c (triple P i)"
  let ?B = "\<lambda>i. boosted c (triple P i) (triple orig i) (triple V i)"
  from Suc.IH [OF le] obtain P' V' where
    run: "fold (\<lambda>i r. bind_fault r (particle_iteration c orig i)) [0 ..< k] (Inr (P, V, T))
             = Inr (P', V', T + sum_list (map ?E [0 ..< k]))"
    and len: "length P' = length P" "length V' = length V"
    and fin: "\<forall>i<k. triple P' i = vadd (triple P i) (?B i) \<and>
                     triple V' i = vscale (?B i) (l_damping c)"
    and rest: "\<forall>j\<ge>k * 3. P' ! j = P ! j \<and> V' ! j = V ! j"
    by blast
  have tp: "triple P' k = triple P k" and tv: "triple V' k = triple V k"
    using rest by (simp_all add: triple_def)
  let ?P2 = "put3 P' k (vadd (triple P k) (?B k))"
  let ?V2 = "put3 V' k (vscale (?B k) (l_damping c))"
  have it: "particle_iteration c orig k (P', V', T + sum_list (map ?E [0 ..< k]))
              = Inr (?P2, ?V2, T + sum_list (map ?E [0 ..< k]) + ?E k)"
    using iteration_eq [of k P' orig V' c] lt len by (simp add: tp tv)
  have f: "fold (\<lambda>i r. bind_fault r (particle_iteration c orig i)) [0 ..< Suc k] (Inr (P, V, T))
             = Inr (?P2, ?V2, T + sum_list (map ?E [0 ..< Suc k]))"
    by (simp add: run it)
  have a: "\<forall>i<Suc k. triple ?P2 i = vadd (triple P i) (?B i) \<and>
                     triple ?V2 i = vscale (?B i) (l_damping c)"
  proof (intro allI impI)
    fix i assume "i < Suc k"
    show "triple ?P2 i = vadd (triple P i) (?B i) \<and> triple ?V2 i = vscale (?B i) (l_damping c)"
    proof (cases "i = k")
      case True
      then show ?thesis using lt len by simp
    next
      case False
      with \<open>i < Suc k\<close> have "i < k" by simp
      with fin False show ?thesis by (simp add: triple_put3_other)
    qed
  qed
  have b: "\<forall>j\<ge>Suc k * 3. ?P2 ! j = P ! j \<and> ?V2 ! j = V ! j"
    using rest by (simp add: nth_put3_above)
  show ?case
    using f a b len by (intro exI [of _ ?P2] exI [of _ ?V2]) simp
qed

lemma trigger_no_fault:
  assumes "sm_inv sm"
  shows "\<exists>sm1. triggerInteractionSound now e sm = Inr sm1 \<and> sm_inv sm1"
  using sm_inv_step [OF assms, of "Trigger now e"] by simp

lemma particle_loop_eq:
  assumes "arrays_ok s"
  shows "\<exists>P V.
           particle_loop c s
             = Inr (P, V, sum_list (map (\<lambda>i. energy_of c (triple (positions s) i))
                                     [0 ..< particleCount (config s)])) \<and>
           length P = length (positions s) \<and> length V = length (velocities s) \<and>
           (\<forall>i < particleCount (config s).
              triple P i
                = vadd (triple (positions s) i)
                    (boosted c (triple (positions s) i) (triple (originalPositions s) i)
                       (triple (velocities s) i)) \<and>
              triple V i
                = vscale (boosted c (triple (positions s) i) (triple (originalPositions s) i)
                            (triple (velocities s) i)) (l_damping c))"
proof -
  let ?n = "particleCount (config s)"
  have len: "?n * 3 \<le> length (positions s)" "?n * 3 \<le> length (originalPositions s)"
    "?n * 3 \<le> length (velocities s)"
    using assms by (simp_all add: arrays_ok_def)
  from loop_prefix [OF len, of c 0] show ?thesis
    unfolding particle_loop_def by auto
qed

lemma updateParticles_eq:
  assumes "arrays_ok s" and "sm_inv (soundManager s)"
    and "particle_loop (frame_of time mousePos s) s = Inr (P, V, E)"
  shows "\<exists>s1. updateParticles time mousePos rnd now s = Inr s1 \<and>
              positions s1 = P \<and> velocities s1 = V \<and>
              originalPositions s1 = originalPositions s \<and> config s1 = config s \<and>
              rotation_y s1 = rotation_y s \<and> uTime s1 = uTime s \<and>
              (case interaction_sound E rnd of
                 None \<Rightarrow> soundManager s1 = soundManager s
               | Some e \<Rightarrow> triggerInteractionSound now e (soundManager s) = Inr (soundManager s1))"
proof -
  let ?s1 = "if cooldown s > 0 then s\<lparr> cooldown := cooldown s - 1 \<rparr> else s"
  have l: "particle_loop (frame_of time mousePos s) ?s1 = Inr (P, V, E)"
    using assms(3) by (simp add: particle_loop_def)
  show ?thesis
  proof (cases "interaction_sound E rnd")
    case None
    then show ?thesis
      unfolding updateParticles_def Let_def l by simp
  next
    case (Some e)
    from trigger_no_fault [OF assms(2), of now e] obtain sm1 where
      "triggerInteractionSound now e (soundManager s) = Inr sm1" by blast
    with Some show ?thesis
      unfolding updateParticles_def Let_def l by simp
  qed
qed

lemma frame_of_simps [simp]:
  "l_time (frame_of time mousePos s) = time"
  "l_mousePos (frame_of time mousePos s) = mousePos"
  "l_mouseRadius (frame_of time mousePos s) = mouseRadius (config s)"
  "l_mouseForce (frame_of time mousePos s)
     = mouseForce (config s) * (if isMouseDown s then 2.5 else 1)"
  "l_returnSpeed (frame_of time mousePos s) = returnSpeed (config s)"
  "l_noiseAmount (frame_of time mousePos s) = noiseAmount (config s)"
  "l_windTurbulence (frame_of time mousePos s) = windTurbulence (config s)"
  "l_damping (frame_of time mousePos s) = damping (config s)"
  "l_windX (frame_of time mousePos s) = cos (time * 0.1) * windStrength (config s)"
  "l_windY (frame_of time mousePos s) = sin (time * 0.1 * 0.7) * windStrength (config s) * 0.5"
  "l_windZ (frame_of time mousePos s) = sin (time * 0.1 * 0.5) * windStrength (config s) * 0.3"
  by (simp_all add: frame_of_def Let_def)

text \<open>One frame of physics for one particle, from the state before the frame.\<close>

lemma updateParticles_particle:
  assumes "arrays_ok s" and "sm_inv (soundManager s)" and "i < particleCount (config s)"
  shows "\<exists>s1. updateParticles time mousePos rnd now s = Inr s1 \<and>
              originalPositions s1 = originalPositions s \<and>
              config s1 = config s \<and> rotation_y s1 = rotation_y s \<and>
              triple (positions s1) i
                = vadd (triple (positions s) i)
                    (boosted (frame_of time mousePos s) (triple (positions s) i)
                       (triple (originalPositions s) i) (triple (velocities s) i)) \<and>
              triple (velocities s1) i
                = vscale (boosted (frame_of time mousePos s) (triple (positions s) i)
                            (triple (originalPositions s) i) (triple (velocities s) i))
                    (damping (config s))"
proof -
  from particle_loop_eq [OF assms(1), of "frame_of time mousePos s"] assms(3)
  obtain P V E where
    l: "particle_loop (frame_of time mousePos s) s = Inr (P, V, E)"
    and t: "triple P i
              = vadd (triple (positions s) i)
                  (boosted (frame_of time mousePos s) (triple (positions s) i)
                     (triple (originalPositions s) i) (triple (velocities s) i))"
      "triple V i
         = vscale (boosted (frame_of time mousePos s) (triple (positions s) i)
                     (triple (originalPositions s) i) (triple (velocities s) i))
             (l_damping (frame_of time mousePos s))"
    by blast
  from updateParticles_eq [OF assms(1,2) l, of rnd now] t show ?thesis
    by auto
qed

section \<open>Properties of updateParticles and animate\<close>

text \<open>
  Claim C1. Take a simulation whose arrays have the allocated length and whose sound manager
  is in a reachable state, and any particle \<open>i\<close> at position \<open>(x, y, z)\<close>, at distance
  \<open>d\<close> from the interaction point \<open>(mx, my, mz)\<close>. \<^verbatim>\<open>updateParticles\<close> returns normally:
  no division is executed with a zero divisor (the model would stop with \<open>NotANumber\<close>).
  The particle's new velocity is the damping factor times the sum of its old velocity, the
  interaction term and the ambient terms (wind, pull to the origin, jitter). The
  interaction term is, when \<open>0 < d < mouseRadius\<close>, the force
  \<open>f = (1 - d/mouseRadius)\<^sup>2 \<sqdot> mouseForce \<sqdot> (2.5 if pressed, else 1)\<close> along the unit
  vector from the interaction point to the particle plus the tangential vector
  \<open>(-(y - my), x - mx, 0)\<close> scaled by \<open>0.3 \<sqdot> f \<sqdot> 0.2\<close>; it is zero when \<open>d = 0\<close> or
  \<open>d \<ge> mouseRadius\<close>.
\<close>

theorem interaction_force_guarded:
  assumes "arrays_ok s" and "sm_inv (soundManager s)" and "i < particleCount (config s)"
    and p: "triple (positions s) i = (x, y, z)"
    and d: "d = sqrt ((x - mx) * (x - mx) + (y - my) * (y - my) + (z - mz) * (z - mz))"
    and f: "f = (1 - d / mouseRadius (config s))\<^sup>2 * mouseForce (config s)
                  * (if isMouseDown s then 2.5 else 1)"
  shows "\<exists>s1. updateParticles time (mx, my, mz) rnd now s = Inr s1 \<and>
              triple (velocities s1) i
                = vscale
                    (vadd
                       (vadd (triple (velocities s) i)
                          (if 0 < d \<and> d < mouseRadius (config s)
                           then ((x - mx) / d * f + - (y - my) * (0.3 * f * 0.2),
                                 (y - my) / d * f + (x - mx) * (0.3 * f * 0.2),
                                 (z - mz) / d * f)
                           else (0, 0, 0)))
                       (ambient_accel (frame_of time (mx, my, mz) s) (x, y, z)
                          (triple (originalPositions s) i)))
                    (damping (config s))"
proof -
  let ?c = "frame_of time (mx, my, mz) s"
  let ?o = "triple (originalPositions s) i"
  have dd: "displacement_of (x, y, z) (mx, my, mz) = d"
    by (simp add: displacement_of_def d)
  have rp: "repulsion ?c (x, y, z) = f"
    unfolding repulsion_def frame_of_simps dd f power2_eq_square by (simp only: mult.assoc)
  have ir: "in_reach ?c (x, y, z) \<longleftrightarrow> 0 < d \<and> d < mouseRadius (config s)"
    unfolding in_reach_def frame_of_simps dd by auto
  have ia: "interaction_accel ?c (x, y, z)
              = (if 0 < d \<and> d < mouseRadius (config s)
                 then ((x - mx) / d * f + - (y - my) * (0.3 * f * 0.2),
                       (y - my) / d * f + (x - mx) * (0.3 * f * 0.2),
                       (z - mz) / d * f)
                 else (0, 0, 0))"
    unfolding interaction_accel_def frame_of_simps prod.case ir Let_def dd rp
    by (simp only: mult.assoc)
  have b: "boosted ?c (x, y, z) ?o v
             = vadd (vadd v (interaction_accel ?c (x, y, z))) (ambient_accel ?c (x, y, z) ?o)"
    for v
    by (cases v; cases "interaction_accel ?c (x, y, z)"; cases "wind_accel ?c (x, y, z) ?o";
        cases "return_accel ?c (x, y, z) ?o"; cases "jitter_accel ?c (x, y, z)")
       (simp add: boosted_def ambient_accel_def vadd_def)
  from updateParticles_particle [OF assms(1,2,3), of time "(mx, my, mz)" rnd now]
  show ?thesis
    unfolding p b ia by blast
qed

theorem interaction_force_guarded_witness:
  "arrays_ok demo_state \<and> sm_inv (soundManager demo_state) \<and>
   triple (positions demo_state) 0 = (1, 0, 0) \<and>
   (0::real) < 1 \<and> 1 < mouseRadius (config demo_state) \<and>
   (\<exists>s1. updateParticles 0 (0, 0, 0) 0 0 demo_state = Inr s1 \<and>
         triple (velocities s1) 0
           = vscale
               (vadd (22201 / 22500, 6 / 100 * (22201 / 22500), 0)
                  (ambient_accel (frame_of 0 (0, 0, 0) demo_state) (1, 0, 0) (1, 0, 0)))
               (96 / 100)) \<and>
   (\<exists>s0. updateParticles 0 (1, 0, 0) 0 0 demo_state = Inr s0 \<and>
         triple (velocities s0) 0
           = vscale
               (vadd (0, 0, 0)
                  (ambient_accel (frame_of 0 (1, 0, 0) demo_state) (1, 0, 0) (1, 0, 0)))
               (96 / 100))"
proof -
  have h: "arrays_ok demo_state" "sm_inv (soundManager demo_state)"
    "0 < particleCount (config demo_state)"
    by (simp_all add: arrays_ok_def sm_inv_def demo_state_def demo_config_def
          new_SoundManager_def)
  have p: "triple (positions demo_state) 0 = (1, 0, 0)"
    by (simp add: triple_def demo_state_def)
  have d: "(1::real) = sqrt ((1 - 0) * (1 - 0) + (0 - 0) * (0 - 0) + (0 - 0) * (0 - 0))"
    by simp
  have f: "(22201 / 22500 :: real)
             = (1 - 1 / mouseRadius (config demo_state))\<^sup>2 * mouseForce (config demo_state)
                 * (if isMouseDown demo_state then 2.5 else 1)"
    by (simp add: demo_state_def demo_config_def power2_eq_square)
  have r: "(1::real) < mouseRadius (config demo_state)"
    by (simp add: demo_state_def demo_config_def)
  from interaction_force_guarded [OF h p d f, of 0 0 0] obtain s1 where
    u: "updateParticles 0 (0, 0, 0) 0 0 demo_state = Inr s1"
    and v: "triple (velocities s1) 0
              = vscale
                  (vadd
                     (vadd (triple (velocities demo_state) 0)
                        (if (0::real) < 1 \<and> 1 < mouseRadius (config demo_state)
                         then ((1 - 0) / 1 * (22201 / 22500) + - (0 - 0) * (0.3 * (22201 / 22500) * 0.2),
                               (0 - 0) / 1 * (22201 / 22500) + (1 - 0) * (0.3 * (22201 / 22500) * 0.2),
                               (0 - 0) / 1 * (22201 / 22500))
                         else (0, 0, 0)))
                     (ambient_accel (frame_of 0 (0, 0, 0) demo_state) (1, 0, 0)
                        (triple (originalPositions demo_state) 0)))
                  (damping (config demo_state))"
    by blast
  have "triple (velocities s1) 0
           = vscale
               (vadd (22201 / 22500, 6 / 100 * (22201 / 22500), 0)
                  (ambient_accel (frame_of 0 (0, 0, 0) demo_state) (1, 0, 0) (1, 0, 0)))
               (96 / 100)"
    unfolding v using r
    by (simp add: triple_def vadd_def demo_state_def demo_config_def)
  moreover
  have d0: "(0::real) = sqrt ((1 - 1) * (1 - 1) + (0 - 0) * (0 - 0) + (0 - 0) * (0 - 0))"
    by simp
  have f0: "(1::real)
             = (1 - 0 / mouseRadius (config demo_state))\<^sup>2 * mouseForce (config demo_state)
                 * (if isMouseDown demo_state then 2.5 else 1)"
    by (simp add: demo_state_def demo_config_def)
  from interaction_force_guarded [OF h p d0 f0, of 0 0 0] obtain s0 where
    u0: "updateParticles 0 (1, 0, 0) 0 0 demo_state = Inr s0"
    and v0: "triple (velocities s0) 0
              = vscale
                  (vadd
                     (vadd (triple (velocities demo_state) 0)
                        (if (0::real) < 0 \<and> 0 < mouseRadius (config demo_state)
                         then ((1 - 1) / 0 * 1 + - (0 - 0) * (0.3 * 1 * 0.2),
                               (0 - 0) / 0 * 1 + (1 - 1) * (0.3 * 1 * 0.2),
                               (0 - 0) / 0 * 1)
                         else (0, 0, 0)))
                     (ambient_accel (frame_of 0 (1, 0, 0) demo_state) (1, 0, 0)
                        (triple (originalPositions demo_state) 0)))
                  (damping (config demo_state))"
    by blast
  have "triple (velocities s0) 0
           = vscale
               (vadd (0, 0, 0)
                  (ambient_accel (frame_of 0 (1, 0, 0) demo_state) (1, 0, 0) (1, 0, 0)))
               (96 / 100)"
    unfolding v0
    by (simp add: triple_def vadd_def demo_state_def demo_config_def)
  ultimately show ?thesis using h p r u u0 by simp
qed

text \<open>
  Claim C3. For any particle \<open>i\<close> at position \<open>(x, y, z)\<close>, the velocity after
  \<^verbatim>\<open>updateParticles\<close> is the damping factor times the sum of the old velocity, the base
  wind vector scaled by \<open>windStrength \<sqdot> windInfluence \<sqdot> 0.05\<close>, the turbulence term
  \<open>gust\<close> (noise sample times \<open>windTurbulence \<sqdot> windInfluence \<sqdot> 0.05\<close>, in which
  \<open>windStrength\<close> does not occur) and the other terms. So also with \<open>windStrength = 0\<close>:
  for a particle with displacement above 0 and \<open>windTurbulence\<close> above 0, each component
  of the turbulence term whose noise sample is not zero is not zero.
\<close>

theorem turbulence_not_scaled_by_windStrength:
  assumes "arrays_ok s" and "sm_inv (soundManager s)" and "i < particleCount (config s)"
    and p: "triple (positions s) i = (x, y, z)"
    and w: "windInfluence
              = min (displacement_of (x, y, z) (triple (originalPositions s) i) / 50) 1 * 0.5"
    and g: "gust = (noise3D (x * 0.01 + time * 0.2) (y * 0.01) (z * 0.01)
                      * windTurbulence (config s) * windInfluence * 0.05,
                    noise3D (x * 0.01) (y * 0.01 + time * 0.2) (z * 0.01)
                      * windTurbulence (config s) * windInfluence * 0.05,
                    noise3D (x * 0.01) (y * 0.01) (z * 0.01 + time * 0.2)
                      * windTurbulence (config s) * windInfluence * 0.05)"
    and b: "base = (cos (time * 0.1), sin (time * 0.1 * 0.7) * 0.5, sin (time * 0.1 * 0.5) * 0.3)"
  shows "\<exists>s1. updateParticles time mousePos rnd now s = Inr s1 \<and>
              triple (velocities s1) i
                = vscale
                    (vadd
                       (vadd
                          (vadd (triple (velocities s) i)
                             (vscale base (windStrength (config s) * windInfluence * 0.05)))
                          gust)
                       (vadd
                          (vadd (interaction_accel (frame_of time mousePos s) (x, y, z))
                             (return_accel (frame_of time mousePos s) (x, y, z)
                                (triple (originalPositions s) i)))
                          (jitter_accel (frame_of time mousePos s) (x, y, z))))
                    (damping (config s)) \<and>
              (0 < displacement_of (x, y, z) (triple (originalPositions s) i) \<and>
               0 < windTurbulence (config s) \<longrightarrow>
                 (noise3D (x * 0.01 + time * 0.2) (y * 0.01) (z * 0.01) \<noteq> 0
                    \<longrightarrow> fst gust \<noteq> 0) \<and>
                 (noise3D (x * 0.01) (y * 0.01 + time * 0.2) (z * 0.01) \<noteq> 0
                    \<longrightarrow> fst (snd gust) \<noteq> 0) \<and>
                 (noise3D (x * 0.01) (y * 0.01) (z * 0.01 + time * 0.2) \<noteq> 0
                    \<longrightarrow> snd (snd gust) \<noteq> 0))"
proof -
  let ?c = "frame_of time mousePos s"
  let ?o = "triple (originalPositions s) i"
  have wa: "wind_accel ?c (x, y, z) ?o
              = vadd (vscale base (windStrength (config s) * windInfluence * 0.05)) gust"
    unfolding wind_accel_def frame_of_simps prod.case Let_def w [symmetric]
    by (simp add: g b vadd_def vscale_def algebra_simps)
  have bo: "boosted ?c (x, y, z) ?o v
              = vadd (vadd (vadd v (vscale base (windStrength (config s) * windInfluence * 0.05)))
                        gust)
                  (vadd (vadd (interaction_accel ?c (x, y, z)) (return_accel ?c (x, y, z) ?o))
                     (jitter_accel ?c (x, y, z)))"
    for v
    unfolding boosted_def wa
    by (cases v; cases "interaction_accel ?c (x, y, z)"; cases gust; cases base;
        cases "return_accel ?c (x, y, z) ?o"; cases "jitter_accel ?c (x, y, z)")
       (simp add: vadd_def vscale_def)
  have pos: "0 < windInfluence"
    if "0 < displacement_of (x, y, z) ?o"
    using that unfolding w by simp
  from updateParticles_particle [OF assms(1,2,3), of time mousePos rnd now]
  show ?thesis
    unfolding p bo using pos by (auto simp: g)
qed

lemma noise_sample_example:
  "noise3D (0 * 0.01 + 5 * pi / 77.9388 * 0.2) (0 * 0.01) (0 * 0.01) = 27265 / 100000"
proof -
  have a: "(0 * 0.01 + 5 * pi / 77.9388 * 0.2) * 12.9898 + 0 * 0.01 * 78.233
             + 0 * 0.01 * 37.719 = pi / 6"
    by simp
  show ?thesis
    unfolding noise3D_def Let_def a sin_30
    by (simp add: js_rem_def js_trunc_def)
qed

theorem turbulence_not_scaled_by_windStrength_witness:
  "windStrength (config (demo_state\<lparr> config := demo_config\<lparr> windStrength := 0 \<rparr>,
                                     positions := [0, 0, 0] \<rparr>)) = 0 \<and>
   windTurbulence (config (demo_state\<lparr> config := demo_config\<lparr> windStrength := 0 \<rparr>,
                                       positions := [0, 0, 0] \<rparr>)) = 2 / 10 \<and>
   displacement_of (0, 0, 0) (1, 0, 0) = 1 \<and>
   noise3D (0 * 0.01 + 5 * pi / 77.9388 * 0.2) (0 * 0.01) (0 * 0.01) = 27265 / 100000 \<and>
   (\<exists>s1. updateParticles (5 * pi / 77.9388) (0, 0, 0) 0 0
           (demo_state\<lparr> config := demo_config\<lparr> windStrength := 0 \<rparr>,
                        positions := [0, 0, 0] \<rparr>) = Inr s1) \<and>
   noise3D (0 * 0.01 + 5 * pi / 77.9388 * 0.2) (0 * 0.01) (0 * 0.01)
     * (2 / 10) * (min (1 / 50) 1 * 0.5) * 0.05 \<noteq> 0"
proof -
  let ?s = "demo_state\<lparr> config := demo_config\<lparr> windStrength := 0 \<rparr>, positions := [0, 0, 0] \<rparr>"
  let ?t = "5 * pi / 77.9388 :: real"
  have h: "arrays_ok ?s" "sm_inv (soundManager ?s)" "0 < particleCount (config ?s)"
    by (simp_all add: arrays_ok_def sm_inv_def demo_state_def demo_config_def
          new_SoundManager_def)
  have p: "triple (positions ?s) 0 = (0, 0, 0)"
    by (simp add: triple_def)
  have c: "windStrength (config ?s) = 0" "windTurbulence (config ?s) = 2 / 10"
    by (simp_all add: demo_config_def)
  have o: "triple (originalPositions ?s) 0 = (1, 0, 0)"
    by (simp add: triple_def demo_state_def)
  have d: "displacement_of (0, 0, 0) (1, 0, 0) = 1"
    by (simp add: displacement_of_def)
  note n = noise_sample_example
  from turbulence_not_scaled_by_windStrength [OF h p refl refl refl, of ?t "(0, 0, 0)" 0 0]
  obtain s1 where
    u: "updateParticles ?t (0, 0, 0) 0 0 ?s = Inr s1"
    and g: "0 < displacement_of (0, 0, 0) (triple (originalPositions ?s) 0) \<and>
            0 < windTurbulence (config ?s) \<longrightarrow>
            (noise3D (0 * 0.01 + ?t * 0.2) (0 * 0.01) (0 * 0.01) \<noteq> 0 \<longrightarrow>
             fst (noise3D (0 * 0.01 + ?t * 0.2) (0 * 0.01) (0 * 0.01)
                    * windTurbulence (config ?s)
                    * (min (displacement_of (0, 0, 0) (triple (originalPositions ?s) 0) / 50) 1 * 0.5)
                    * 0.05,
                  noise3D (0 * 0.01) (0 * 0.01 + ?t * 0.2) (0 * 0.01)
                    * windTurbulence (config ?s)
                    * (min (displacement_of (0, 0, 0) (triple (originalPositions ?s) 0) / 50) 1 * 0.5)
                    * 0.05,
                  noise3D (0 * 0.01) (0 * 0.01) (0 * 0.01 + ?t * 0.2)
                    * windTurbulence (config ?s)
                    * (min (displacement_of (0, 0, 0) (triple (originalPositions ?s) 0) / 50) 1 * 0.5)
                    * 0.05) \<noteq> 0)"
    by blast
  have "noise3D (0 * 0.01 + ?t * 0.2) (0 * 0.01) (0 * 0.01)
          * (2 / 10) * (min (1 / 50) 1 * 0.5) * 0.05 \<noteq> 0"
    using g unfolding o d c fst_conv n by simp
  with c d n u show ?thesis by blast
qed

lemma updateParticles_sound:
  assumes "arrays_ok s" and "sm_inv (soundManager s)"
    and E: "E = sum_list (map (\<lambda>i. energy_of (frame_of time mousePos s) (triple (positions s) i))
                           [0 ..< particleCount (config s)])"
  shows "\<exists>P V s1.
           particle_loop (frame_of time mousePos s) s = Inr (P, V, E) \<and>
           updateParticles time mousePos rnd now s = Inr s1 \<and>
           (case interaction_sound E rnd of
              None \<Rightarrow> soundManager s1 = soundManager s
            | Some e \<Rightarrow> triggerInteractionSound now e (soundManager s) = Inr (soundManager s1))"
proof -
  from particle_loop_eq [OF assms(1), of "frame_of time mousePos s"]
  obtain P V where l: "particle_loop (frame_of time mousePos s) s = Inr (P, V, E)"
    unfolding E by blast
  from updateParticles_eq [OF assms(1,2) l, of rnd now] l show ?thesis
    by blast
qed

text \<open>
  Claim C4, amended. The energy that the loop of \<^verbatim>\<open>updateParticles\<close> accumulates is the sum,
  over all particles, of the repulsion force \<open>f\<close> of each particle within reach of the
  interaction point whose \<open>f\<close> exceeds 0.1. After the loop, \<^verbatim>\<open>triggerInteractionSound\<close> is
  called with that energy exactly when the energy exceeds 5.0 and the random draw is below
  \<open>min (energy \<sqdot> 0.005) 0.5\<close>; otherwise the sound manager is left as it was. An energy
  above 5.0 alone does not forward it.
\<close>

theorem energy_sum_and_random_forwarding:
  assumes "arrays_ok s" and "sm_inv (soundManager s)"
    and E: "E = sum_list (map (\<lambda>i. energy_of (frame_of time mousePos s) (triple (positions s) i))
                           [0 ..< particleCount (config s)])"
  shows "\<exists>P V s1.
           particle_loop (frame_of time mousePos s) s = Inr (P, V, E) \<and>
           updateParticles time mousePos rnd now s = Inr s1 \<and>
           (if 5 < E \<and> rnd < min (E * 0.005) 0.5
            then interaction_sound E rnd = Some E \<and>
                 triggerInteractionSound now E (soundManager s) = Inr (soundManager s1)
            else interaction_sound E rnd = None \<and> soundManager s1 = soundManager s)"
proof -
  from updateParticles_sound [OF assms, of rnd now] obtain P V s1 where
    r: "particle_loop (frame_of time mousePos s) s = Inr (P, V, E)"
      "updateParticles time mousePos rnd now s = Inr s1"
      "case interaction_sound E rnd of
         None \<Rightarrow> soundManager s1 = soundManager s
       | Some e \<Rightarrow> triggerInteractionSound now e (soundManager s) = Inr (soundManager s1)"
    by blast
  show ?thesis
  proof (cases "5 < E \<and> rnd < min (E * 0.005) 0.5")
    case True
    then have "interaction_sound E rnd = Some E" by (simp add: interaction_sound_def)
    with r True show ?thesis by auto
  next
    case False
    then have "interaction_sound E rnd = None" by (auto simp: interaction_sound_def)
    with r False show ?thesis by auto
  qed
qed

lemma loud_state_ok: "arrays_ok loud_state" "sm_inv (soundManager loud_state)"
  by (simp_all add: loud_state_def arrays_ok_def sm_inv_def demo_state_def demo_config_def
        demo_sound_def init_def new_SoundManager_def)

lemma loud_state_energy:
  "sum_list (map (\<lambda>i. energy_of (frame_of 0 (0, 0, 0) loud_state) (triple (positions loud_state) i))
       [0 ..< particleCount (config loud_state)]) = 25"
proof -
  have n: "particleCount (config loud_state) = 1"
    by (simp add: loud_state_def demo_config_def)
  have p: "triple (positions loud_state) 0 = (1, 0, 0)"
    by (simp add: triple_def loud_state_def demo_state_def)
  have d: "displacement_of (1, 0, 0) (0, 0, 0) = 1" by (simp add: displacement_of_def)
  have e: "energy_of (frame_of 0 (0, 0, 0) loud_state) (1, 0, 0) = 25"
    by (simp add: energy_of_def in_reach_def repulsion_def d loud_state_def demo_config_def
          demo_state_def)
  show ?thesis unfolding n by (simp add: p e)
qed

theorem energy_sum_and_random_forwarding_witness:
  "arrays_ok loud_state \<and> sm_inv (soundManager loud_state) \<and>
   (\<exists>P V s1. particle_loop (frame_of 0 (0, 0, 0) loud_state) loud_state = Inr (P, V, 25) \<and>
             updateParticles 0 (0, 0, 0) (1 / 10) 1 loud_state = Inr s1 \<and>
             interaction_sound 25 (1 / 10) = Some 25 \<and>
             triggerInteractionSound 1 25 (soundManager loud_state) = Inr (soundManager s1))"
proof -
  have c: "(5::real) < 25 \<and> (1 / 10 :: real) < min (25 * 0.005) 0.5" by simp
  from energy_sum_and_random_forwarding
         [OF loud_state_ok loud_state_energy [symmetric], of "1 / 10" 1]
  obtain P V s1 where
    r: "particle_loop (frame_of 0 (0, 0, 0) loud_state) loud_state = Inr (P, V, 25)"
       "updateParticles 0 (0, 0, 0) (1 / 10) 1 loud_state = Inr s1"
       "if (5::real) < 25 \<and> (1 / 10 :: real) < min (25 * 0.005) 0.5
        then interaction_sound 25 (1 / 10) = Some 25 \<and>
             triggerInteractionSound 1 25 (soundManager loud_state) = Inr (soundManager s1)
        else interaction_sound 25 (1 / 10) = None \<and> soundManager s1 = soundManager loud_state"
    by blast
  from r(3) c have "interaction_sound 25 (1 / 10) = Some 25 \<and>
      triggerInteractionSound 1 25 (soundManager loud_state) = Inr (soundManager s1)"
    by (simp only: if_True)
  with r(1,2) loud_state_ok show ?thesis by blast
qed

text \<open>The claim as stated fails: in \<open>loud_state\<close> the accumulated energy is 25, above
  5.0, and with the random draw at 0.9 the sound manager is not called; a call would have
  started a note.\<close>

theorem forwarding_not_certain_counterexample:
  "map_sum id (snd \<circ> snd) (particle_loop (frame_of 0 (0, 0, 0) loud_state) loud_state) = Inr 25 \<and>
   (5::real) < 25 \<and>
   interaction_sound 25 (9 / 10) = None \<and>
   map_sum id soundManager (updateParticles 0 (0, 0, 0) (9 / 10) 1 loud_state)
     = Inr (soundManager loud_state) \<and>
   started (soundManager loud_state) = [] \<and>
   map_sum id started (triggerInteractionSound 1 25 (soundManager loud_state)) = Inr [1]"
proof -
  have n: "interaction_sound 25 (9 / 10) = None" by (simp add: interaction_sound_def)
  from updateParticles_sound [OF loud_state_ok loud_state_energy [symmetric], of "9 / 10" 1]
  obtain P V s1 where
    r: "particle_loop (frame_of 0 (0, 0, 0) loud_state) loud_state = Inr (P, V, 25)"
      "updateParticles 0 (0, 0, 0) (9 / 10) 1 loud_state = Inr s1"
      "soundManager s1 = soundManager loud_state"
    unfolding n by auto
  have t: "map_sum id started (triggerInteractionSound 1 25 (soundManager loud_state)) = Inr [1]"
    "started (soundManager loud_state) = []"
    by (simp_all add: triggerInteractionSound_def playNote_def loud_state_def demo_sound_def
          init_def new_SoundManager_def)
  show ?thesis using r n t by simp
qed

section \<open>The return spring\<close>

lemma updateParticles_keeps:
  assumes "arrays_ok s" and "sm_inv (soundManager s)"
  shows "\<exists>s1. updateParticles time mousePos rnd now s = Inr s1 \<and>
              arrays_ok s1 \<and> sm_inv (soundManager s1) \<and> config s1 = config s \<and>
              originalPositions s1 = originalPositions s \<and>
              (\<forall>i < particleCount (config s).
                 triple (positions s1) i
                   = vadd (triple (positions s) i)
                       (boosted (frame_of time mousePos s) (triple (positions s) i)
                          (triple (originalPositions s) i) (triple (velocities s) i)) \<and>
                 triple (velocities s1) i
                   = vscale (boosted (frame_of time mousePos s) (triple (positions s) i)
                               (triple (originalPositions s) i) (triple (velocities s) i))
                       (damping (config s)))"
proof -
  let ?c = "frame_of time mousePos s"
  from particle_loop_eq [OF assms(1), of ?c]
  obtain P V E where
    l: "particle_loop ?c s = Inr (P, V, E)"
    and len: "length P = length (positions s)" "length V = length (velocities s)"
    and t: "\<forall>i < particleCount (config s).
              triple P i
                = vadd (triple (positions s) i)
                    (boosted ?c (triple (positions s) i) (triple (originalPositions s) i)
                       (triple (velocities s) i)) \<and>
              triple V i
                = vscale (boosted ?c (triple (positions s) i) (triple (originalPositions s) i)
                            (triple (velocities s) i)) (l_damping ?c)"
    by blast
  from updateParticles_eq [OF assms l, of rnd now] obtain s1 where
    u: "updateParticles time mousePos rnd now s = Inr s1"
    and f: "positions s1 = P" "velocities s1 = V"
      "originalPositions s1 = originalPositions s" "config s1 = config s"
    and sm: "case interaction_sound E rnd of
               None \<Rightarrow> soundManager s1 = soundManager s
             | Some e \<Rightarrow> triggerInteractionSound now e (soundManager s) = Inr (soundManager s1)"
    by blast
  have ok: "arrays_ok s1"
    using assms(1) f len by (simp add: arrays_ok_def)
  have inv: "sm_inv (soundManager s1)"
  proof (cases "interaction_sound E rnd")
    case None
    with sm assms(2) show ?thesis by simp
  next
    case (Some e)
    with sm have "triggerInteractionSound now e (soundManager s) = Inr (soundManager s1)"
      by simp
    with trigger_no_fault [OF assms(2), of now e] show ?thesis by auto
  qed
  from u ok inv f t show ?thesis by auto
qed

lemma calm_boosted:
  assumes "calm s"
  shows "boosted (frame_of time mousePos s) p orig v
           = vadd v (vscale (vsub orig p) (pull_factor s (displacement_of p orig)))"
proof -
  let ?c = "frame_of time mousePos s"
  obtain x y z where p: "p = (x, y, z)" by (cases p) auto
  obtain ox oy oz where o: "orig = (ox, oy, oz)" by (cases orig) auto
  obtain vx vy vz where v: "v = (vx, vy, vz)" by (cases v) auto
  have c: "mouseForce (config s) = 0" "windStrength (config s) = 0"
    "noiseAmount (config s) = 0" "windTurbulence (config s) = 0"
    using assms by (simp_all add: calm_def)
  have ia: "interaction_accel ?c (x, y, z) = (0, 0, 0)"
    by (cases mousePos) (simp add: interaction_accel_def repulsion_def c Let_def)
  have wa: "wind_accel ?c (x, y, z) (ox, oy, oz) = (0, 0, 0)"
    by (simp add: wind_accel_def c Let_def)
  have ja: "jitter_accel ?c (x, y, z) = (0, 0, 0)"
    by (simp add: jitter_accel_def c)
  have ra: "return_accel ?c (x, y, z) (ox, oy, oz)
              = vscale (vsub (ox, oy, oz) (x, y, z))
                  (pull_factor s (displacement_of (x, y, z) (ox, oy, oz)))"
    by (simp add: return_accel_def pull_factor_def vscale_def vsub_def Let_def)
  show ?thesis
    unfolding p o v boosted_def ia wa ja ra
    by (simp add: vadd_def vscale_def vsub_def)
qed

lemma calm_call:
  assumes "arrays_ok s" and "sm_inv (soundManager s)" and "i < particleCount (config s)"
    and "calm s"
  shows "\<exists>s1. updateParticles time mousePos rnd now s = Inr s1 \<and>
              arrays_ok s1 \<and> sm_inv (soundManager s1) \<and> config s1 = config s \<and>
              originalPositions s1 = originalPositions s \<and>
              triple (positions s1) i
                = vadd (triple (positions s) i)
                    (vadd (triple (velocities s) i)
                       (vscale (vsub (triple (originalPositions s) i) (triple (positions s) i))
                          (pull_factor s (displacement_at s i)))) \<and>
              triple (velocities s1) i
                = vscale
                    (vadd (triple (velocities s) i)
                       (vscale (vsub (triple (originalPositions s) i) (triple (positions s) i))
                          (pull_factor s (displacement_at s i))))
                    (damping (config s))"
  using updateParticles_keeps [OF assms(1,2), of time mousePos rnd now] assms(3)
  unfolding calm_boosted [OF assms(4)] displacement_at_def by blast

lemma pulled_displacement:
  "displacement_of (x + (ox - x) * k, y + (oy - y) * k, z + (oz - z) * k) (ox, oy, oz)
     = \<bar>1 - k\<bar> * displacement_of (x, y, z) (ox, oy, oz)"
proof -
  have "(x + (ox - x) * k - ox) * (x + (ox - x) * k - ox)
          + (y + (oy - y) * k - oy) * (y + (oy - y) * k - oy)
          + (z + (oz - z) * k - oz) * (z + (oz - z) * k - oz)
        = (1 - k)\<^sup>2 * ((x - ox) * (x - ox) + (y - oy) * (y - oy) + (z - oz) * (z - oz))"
    by (simp add: power2_eq_square algebra_simps)
  then show ?thesis
    by (simp add: displacement_of_def real_sqrt_mult)
qed

lemma vec_step:
  "vadd p (vadd (vscale w c) (vscale w k)) = vadd p (vscale w (k + c))"
  "vscale (vadd (vscale w c) (vscale w k)) e = vscale w ((k + c) * e)"
  by (cases p; cases w; simp add: vadd_def vscale_def algebra_simps)+

lemma vsub_step:
  "vsub orig (vadd p (vscale (vsub orig p) t)) = vscale (vsub orig p) (1 - t)"
  by (cases p; cases orig) (simp add: vadd_def vscale_def vsub_def algebra_simps)

lemma vscale_vscale: "vscale (vscale w a) b = vscale w (a * b)"
  by (cases w) (simp add: vscale_def algebra_simps)

lemma displacement_step:
  "displacement_of (vadd p (vscale (vsub orig p) t)) orig = \<bar>1 - t\<bar> * displacement_of p orig"
  by (cases p; cases orig) (simp add: vadd_def vscale_def vsub_def pulled_displacement)

lemma displacement_of_nonneg: "0 \<le> displacement_of p orig"
  by (cases p; cases orig) (simp add: displacement_of_def)

lemma homeward_call:
  assumes "arrays_ok s" and "sm_inv (soundManager s)" and "i < particleCount (config s)"
    and "calm s" and h: "homeward s i c"
    and t: "t = pull_factor s (displacement_at s i) + c"
  shows "\<exists>s1. updateParticles time mousePos rnd now s = Inr s1 \<and>
              arrays_ok s1 \<and> sm_inv (soundManager s1) \<and> config s1 = config s \<and>
              originalPositions s1 = originalPositions s \<and>
              displacement_at s1 i = \<bar>1 - t\<bar> * displacement_at s i \<and>
              (t \<noteq> 1 \<longrightarrow> homeward s1 i (damping (config s) * t / (1 - t)))"
proof -
  let ?p = "triple (positions s) i"
  let ?o = "triple (originalPositions s) i"
  let ?w = "vsub ?o ?p"
  have v: "triple (velocities s) i = vscale ?w c" using h by (simp add: homeward_def)
  from calm_call [OF assms(1,2,3,4), of time mousePos rnd now] obtain s1 where
    u: "updateParticles time mousePos rnd now s = Inr s1"
    and k: "arrays_ok s1" "sm_inv (soundManager s1)" "config s1 = config s"
      "originalPositions s1 = originalPositions s"
    and p1: "triple (positions s1) i = vadd ?p (vscale ?w t)"
    and v1: "triple (velocities s1) i = vscale ?w (t * damping (config s))"
    unfolding v vec_step t by blast
  have d: "displacement_at s1 i = \<bar>1 - t\<bar> * displacement_at s i"
    by (simp add: displacement_at_def k(4) p1 displacement_step)
  have "homeward s1 i (damping (config s) * t / (1 - t))" if "t \<noteq> 1"
    using that
    by (simp add: homeward_def k(4) p1 v1 vsub_step vscale_vscale mult.commute)
  with u k d show ?thesis by blast
qed

lemma pull_factor_bounds:
  assumes "0 \<le> returnSpeed (config s)" and "0 \<le> d" and "d \<le> D"
  shows "0 \<le> pull_factor s d" and "pull_factor s d \<le> returnSpeed (config s) * (1 + D * 0.01)"
    and "d > 0.1 \<Longrightarrow> returnSpeed (config s) \<le> pull_factor s d"
proof -
  have a: "returnSpeed (config s) * (1 + d * 0.01) \<le> returnSpeed (config s) * (1 + D * 0.01)"
    using assms by (intro mult_left_mono) simp_all
  have b: "returnSpeed (config s) * 1 \<le> returnSpeed (config s) * (1 + d * 0.01)"
    using assms by (intro mult_left_mono) simp_all
  have c: "0 \<le> returnSpeed (config s) * (1 + D * 0.01)"
    using assms by simp
  show "0 \<le> pull_factor s d" using assms by (simp add: pull_factor_def)
  show "pull_factor s d \<le> returnSpeed (config s) * (1 + D * 0.01)"
    using a c by (simp add: pull_factor_def)
  show "returnSpeed (config s) \<le> pull_factor s d" if "d > 0.1"
    using that b by (simp add: pull_factor_def)
qed

lemma pull_factor_config: "config s1 = config s \<Longrightarrow> pull_factor s1 d = pull_factor s d"
  by (simp add: pull_factor_def)

lemma settling_call:
  assumes "arrays_ok s" and "sm_inv (soundManager s)" and "i < particleCount (config s)"
    and "calm s" and st: "settling s i \<sigma> D c"
  shows "\<exists>s1 c1. updateParticles time mousePos rnd now s = Inr s1 \<and>
              arrays_ok s1 \<and> sm_inv (soundManager s1) \<and> config s1 = config s \<and>
              settling s1 i \<sigma> D c1 \<and>
              displacement_at s1 i \<le> displacement_at s i \<and>
              (displacement_at s i > 0.1 \<longrightarrow>
                 displacement_at s1 i \<le> (1 - returnSpeed (config s)) * displacement_at s i)"
proof -
  let ?d = "displacement_at s i"
  let ?rs = "returnSpeed (config s)"
  let ?dm = "damping (config s)"
  define t where "t = pull_factor s ?d + c"
  have g: "0 \<le> ?rs" "0 \<le> ?dm" "0 \<le> \<sigma>" "\<sigma> < 1"
    "?rs * (1 + D * 0.01) + ?dm * \<sigma> / (1 - \<sigma>) \<le> \<sigma>"
    "homeward s i c" "0 \<le> c" "t \<le> \<sigma>" "?d \<le> D"
    using st by (simp_all add: settling_def t_def)
  have d0: "0 \<le> ?d" by (simp add: displacement_at_def displacement_of_nonneg)
  have k0: "0 \<le> pull_factor s ?d" using pull_factor_bounds(1) [OF g(1) d0 g(9)] .
  have t0: "0 \<le> t" "t < 1" using k0 g(7,8,4) by (simp_all add: t_def)
  from homeward_call [OF assms(1,2,3,4) g(6) t_def, of time mousePos rnd now] t0
  obtain s1 where
    u: "updateParticles time mousePos rnd now s = Inr s1"
    and k: "arrays_ok s1" "sm_inv (soundManager s1)" "config s1 = config s"
    and d1: "displacement_at s1 i = \<bar>1 - t\<bar> * ?d"
    and h1: "homeward s1 i (?dm * t / (1 - t))"
    by auto
  have d1': "displacement_at s1 i = (1 - t) * ?d" using d1 t0 by simp
  have le: "displacement_at s1 i \<le> ?d"
  proof -
    have "(1 - t) * ?d \<le> 1 * ?d" using t0 d0 by (intro mult_right_mono) simp_all
    then show ?thesis using d1' by simp
  qed
  have d1n: "0 \<le> displacement_at s1 i"
    by (simp add: displacement_at_def displacement_of_nonneg)
  have c1: "0 \<le> ?dm * t / (1 - t)" using g(2) t0 by simp
  have r: "t / (1 - t) \<le> \<sigma> / (1 - \<sigma>)"
    using t0 g(4,8) by (simp add: field_simps)
  have "?dm * (t / (1 - t)) \<le> ?dm * (\<sigma> / (1 - \<sigma>))"
    using r g(2) by (rule mult_left_mono)
  then have c1b: "?dm * t / (1 - t) \<le> ?dm * \<sigma> / (1 - \<sigma>)" by simp
  have pf: "pull_factor s1 (displacement_at s1 i) \<le> ?rs * (1 + D * 0.01)"
    using pull_factor_bounds(2) [OF g(1) d1n, of D] le g(9)
    by (simp add: pull_factor_config [OF k(3)])
  have s1: "settling s1 i \<sigma> D (?dm * t / (1 - t))"
    unfolding settling_def k(3)
    using g(1,2,3,4,5) h1 c1 c1b pf le g(9) by simp
  have fast: "displacement_at s1 i \<le> (1 - ?rs) * ?d" if "?d > 0.1"
  proof -
    have "?rs \<le> pull_factor s ?d" using pull_factor_bounds(3) [OF g(1) d0 g(9) that] .
    then have "?rs \<le> t" using g(7) by (simp add: t_def)
    then have "(1 - t) * ?d \<le> (1 - ?rs) * ?d" using d0 by (intro mult_right_mono) simp_all
    then show ?thesis using d1' by simp
  qed
  from u k s1 le fast show ?thesis by blast
qed

lemma calm_config: "config s1 = config s \<Longrightarrow> calm s1 = calm s"
  by (simp add: calm_def)

lemma settling_frames:
  assumes "arrays_ok s" and "sm_inv (soundManager s)" and "i < particleCount (config s)"
    and "calm s" and "settling s i \<sigma> D c"
  shows "\<exists>s2 c2. frames fs s = Inr s2 \<and>
              arrays_ok s2 \<and> sm_inv (soundManager s2) \<and> config s2 = config s \<and>
              settling s2 i \<sigma> D c2 \<and>
              displacement_at s2 i \<le> displacement_at s i \<and>
              displacement_at s2 i
                \<le> max 0.1 ((1 - returnSpeed (config s)) ^ length fs * displacement_at s i)"
  using assms
proof (induction fs arbitrary: s c)
  case Nil
  then show ?case by auto
next
  case (Cons f fs)
  obtain time mousePos rnd now where f: "f = (time, mousePos, rnd, now)"
    by (cases f) auto
  let ?rs = "returnSpeed (config s)"
  let ?d = "displacement_at s i"
  from settling_call [OF Cons.prems, of time mousePos rnd now] obtain s1 c1 where
    u: "updateParticles time mousePos rnd now s = Inr s1"
    and k: "arrays_ok s1" "sm_inv (soundManager s1)" "config s1 = config s"
    and st: "settling s1 i \<sigma> D c1"
    and le: "displacement_at s1 i \<le> ?d"
    and fast: "?d > 0.1 \<longrightarrow> displacement_at s1 i \<le> (1 - ?rs) * ?d"
    by blast
  have i1: "i < particleCount (config s1)" using Cons.prems(3) k(3) by simp
  have c1: "calm s1" using Cons.prems(4) calm_config [OF k(3)] by simp
  from Cons.IH [OF k(1,2) i1 c1 st] obtain s2 c2 where
    r: "frames fs s1 = Inr s2"
    and k2: "arrays_ok s2" "sm_inv (soundManager s2)" "config s2 = config s1"
    and st2: "settling s2 i \<sigma> D c2"
    and le2: "displacement_at s2 i \<le> displacement_at s1 i"
    and b2: "displacement_at s2 i
               \<le> max 0.1 ((1 - ?rs) ^ length fs * displacement_at s1 i)"
    unfolding k(3) by blast
  have run: "frames (f # fs) s = Inr s2" by (simp add: f u r)
  have d0: "0 \<le> ?d" by (simp add: displacement_at_def displacement_of_nonneg)
  have g: "0 \<le> ?rs" "\<sigma> < 1" "?rs * (1 + D * 0.01) + damping (config s) * \<sigma> / (1 - \<sigma>) \<le> \<sigma>"
    "0 \<le> damping (config s)" "0 \<le> \<sigma>" "?d \<le> D"
    using Cons.prems(5) by (simp_all add: settling_def)
  have "?rs * 1 \<le> ?rs * (1 + D * 0.01)"
    using g(1,6) d0 by (intro mult_left_mono) simp_all
  moreover have "0 \<le> damping (config s) * \<sigma> / (1 - \<sigma>)" using g(2,4,5) by simp
  ultimately have rs1: "?rs \<le> 1" using g(2,3) by simp
  have q: "0 \<le> (1 - ?rs) ^ length fs" using rs1 by simp
  have bound: "displacement_at s2 i \<le> max 0.1 ((1 - ?rs) ^ length (f # fs) * ?d)"
  proof (cases "?d > 0.1")
    case True
    with fast have "displacement_at s1 i \<le> (1 - ?rs) * ?d" by simp
    then have "(1 - ?rs) ^ length fs * displacement_at s1 i
                 \<le> (1 - ?rs) ^ length fs * ((1 - ?rs) * ?d)"
      using q by (rule mult_left_mono)
    also have "\<dots> = (1 - ?rs) ^ length (f # fs) * ?d" by simp
    finally have "max 0.1 ((1 - ?rs) ^ length fs * displacement_at s1 i)
                    \<le> max 0.1 ((1 - ?rs) ^ length (f # fs) * ?d)"
      by (intro max.mono order_refl)
    with b2 show ?thesis by (rule order_trans)
  next
    case False
    with le le2 show ?thesis by simp
  qed
  from run k2 k(3) st2 le le2 bound show ?case
    by (intro exI [of _ s2] exI [of _ c2]) simp
qed

lemma displacement_along_x: "displacement_of (x, y, z) (ox, y, z) = \<bar>x - ox\<bar>"
  by (simp add: displacement_of_def)

text \<open>
  Claim C2, amended. Take a simulation with \<open>mouseForce = 0\<close>, \<open>windStrength = 0\<close>,
  \<open>noiseAmount = 0\<close> and also \<open>windTurbulence = 0\<close>, and any particle, at position \<open>p\<close>
  with origin position \<open>o\<close>, velocity \<open>v\<close> and displacement \<open>d\<close>; let \<open>k\<close> be
  \<open>returnSpeed \<sqdot> (1 + d \<sqdot> 0.01)\<close> when \<open>d > 0.1\<close> and 0 otherwise.

  \<^item> One call to \<^verbatim>\<open>updateParticles\<close> takes the particle to position \<open>p + v + k \<sqdot> (o - p)\<close>
    and velocity \<open>damping \<sqdot> (v + k \<sqdot> (o - p))\<close>; a particle at rest with \<open>d \<le> 0.1\<close>
    stays where it is, at rest.
  \<^item> If the particle moves along the line to its origin position, \<open>v = c \<sqdot> (o - p)\<close> (at
    rest: \<open>c = 0\<close>), its displacement after the call is \<open>\<bar>1 - (k + c)\<bar> \<sqdot> d\<close>, which is not
    more than \<open>d\<close> when \<open>0 \<le> k + c \<le> 2\<close>; and unless \<open>k + c = 1\<close> it moves along that
    line afterwards too, with \<open>damping \<sqdot> (k + c) / (1 - (k + c))\<close> in place of \<open>c\<close>.
  \<^item> If moreover the spring does not overshoot (\<open>settling\<close>: \<open>returnSpeed\<close> and \<open>damping\<close>
    are not negative, \<open>c \<ge> 0\<close>, and for some \<open>\<sigma> < 1\<close> both \<open>k + c \<le> \<sigma>\<close> and
    \<open>returnSpeed \<sqdot> (1 + d \<sqdot> 0.01) + damping \<sqdot> \<sigma> / (1 - \<sigma>) \<le> \<sigma>\<close>), then after any
    number \<open>n\<close> of calls every further call leaves the displacement non-increasing, and
    the displacement after the \<open>n\<close> calls is at most
    \<open>max 0.1 ((1 - returnSpeed)\<^sup>n \<sqdot> d)\<close>: repeated calls bring the particle towards its
    origin position, down to the distance 0.1 below which the pull is switched off.
\<close>

theorem return_spring_law:
  assumes "arrays_ok s" and "sm_inv (soundManager s)" and "i < particleCount (config s)"
    and "calm s"
  shows
    "(\<exists>s1. updateParticles time mousePos rnd now s = Inr s1 \<and>
           originalPositions s1 = originalPositions s \<and>
           triple (positions s1) i
             = vadd (triple (positions s) i)
                 (vadd (triple (velocities s) i)
                    (vscale (vsub (triple (originalPositions s) i) (triple (positions s) i))
                       (pull_factor s (displacement_at s i)))) \<and>
           triple (velocities s1) i
             = vscale
                 (vadd (triple (velocities s) i)
                    (vscale (vsub (triple (originalPositions s) i) (triple (positions s) i))
                       (pull_factor s (displacement_at s i))))
                 (damping (config s)) \<and>
           (triple (velocities s) i = (0, 0, 0) \<and> displacement_at s i \<le> 0.1 \<longrightarrow>
              triple (positions s1) i = triple (positions s) i \<and>
              triple (velocities s1) i = (0, 0, 0)) \<and>
           (\<forall>c. homeward s i c \<longrightarrow>
              displacement_at s1 i
                = \<bar>1 - (pull_factor s (displacement_at s i) + c)\<bar> * displacement_at s i \<and>
              (0 \<le> pull_factor s (displacement_at s i) + c \<and>
               pull_factor s (displacement_at s i) + c \<le> 2 \<longrightarrow>
                 displacement_at s1 i \<le> displacement_at s i) \<and>
              (pull_factor s (displacement_at s i) + c \<noteq> 1 \<longrightarrow>
                 homeward s1 i
                   (damping (config s) * (pull_factor s (displacement_at s i) + c)
                      / (1 - (pull_factor s (displacement_at s i) + c)))))) \<and>
     (\<forall>\<sigma> c fs time' mousePos' rnd' now'.
        settling s i \<sigma> (displacement_at s i) c \<longrightarrow>
        (\<exists>s2 s3. frames fs s = Inr s2 \<and>
                 updateParticles time' mousePos' rnd' now' s2 = Inr s3 \<and>
                 displacement_at s3 i \<le> displacement_at s2 i \<and>
                 displacement_at s2 i \<le> displacement_at s i \<and>
                 displacement_at s2 i
                   \<le> max 0.1 ((1 - returnSpeed (config s)) ^ length fs * displacement_at s i)))"
proof (intro conjI allI impI)
  let ?p = "triple (positions s) i"
  let ?o = "triple (originalPositions s) i"
  let ?v = "triple (velocities s) i"
  let ?k = "pull_factor s (displacement_at s i)"
  from calm_call [OF assms, of time mousePos rnd now] obtain s1 where
    u: "updateParticles time mousePos rnd now s = Inr s1"
    and o1: "originalPositions s1 = originalPositions s"
    and p1: "triple (positions s1) i = vadd ?p (vadd ?v (vscale (vsub ?o ?p) ?k))"
    and v1: "triple (velocities s1) i
               = vscale (vadd ?v (vscale (vsub ?o ?p) ?k)) (damping (config s))"
    by blast
  have rest: "triple (positions s1) i = ?p \<and> triple (velocities s1) i = (0, 0, 0)"
    if "?v = (0, 0, 0) \<and> displacement_at s i \<le> 0.1"
    using that unfolding p1 v1
    by (cases ?p; cases ?o) (simp add: pull_factor_def vadd_def vscale_def vsub_def)
  have home: "displacement_at s1 i = \<bar>1 - (?k + c)\<bar> * displacement_at s i \<and>
              (0 \<le> ?k + c \<and> ?k + c \<le> 2 \<longrightarrow> displacement_at s1 i \<le> displacement_at s i) \<and>
              (?k + c \<noteq> 1 \<longrightarrow> homeward s1 i (damping (config s) * (?k + c) / (1 - (?k + c))))"
    if h: "homeward s i c" for c
  proof -
    from homeward_call [OF assms h refl, of time mousePos rnd now] u
    have d: "displacement_at s1 i = \<bar>1 - (?k + c)\<bar> * displacement_at s i"
      and hh: "?k + c \<noteq> 1 \<longrightarrow> homeward s1 i (damping (config s) * (?k + c) / (1 - (?k + c)))"
      by auto
    have d0: "0 \<le> displacement_at s i"
      by (simp add: displacement_at_def displacement_of_nonneg)
    have "displacement_at s1 i \<le> displacement_at s i" if "0 \<le> ?k + c \<and> ?k + c \<le> 2"
    proof -
      have "\<bar>1 - (?k + c)\<bar> \<le> 1" using that by (simp add: abs_le_iff)
      then have "\<bar>1 - (?k + c)\<bar> * displacement_at s i \<le> 1 * displacement_at s i"
        using d0 by (rule mult_right_mono)
      then show ?thesis using d by simp
    qed
    with d hh show ?thesis by blast
  qed
  show "\<exists>s1. updateParticles time mousePos rnd now s = Inr s1 \<and>
           originalPositions s1 = originalPositions s \<and>
           triple (positions s1) i = vadd ?p (vadd ?v (vscale (vsub ?o ?p) ?k)) \<and>
           triple (velocities s1) i
             = vscale (vadd ?v (vscale (vsub ?o ?p) ?k)) (damping (config s)) \<and>
           (?v = (0, 0, 0) \<and> displacement_at s i \<le> 0.1 \<longrightarrow>
              triple (positions s1) i = ?p \<and> triple (velocities s1) i = (0, 0, 0)) \<and>
           (\<forall>c. homeward s i c \<longrightarrow>
              displacement_at s1 i = \<bar>1 - (?k + c)\<bar> * displacement_at s i \<and>
              (0 \<le> ?k + c \<and> ?k + c \<le> 2 \<longrightarrow> displacement_at s1 i \<le> displacement_at s i) \<and>
              (?k + c \<noteq> 1 \<longrightarrow>
                 homeward s1 i (damping (config s) * (?k + c) / (1 - (?k + c)))))"
    using u o1 p1 v1 rest home by (intro exI [of _ s1]) blast
next
  fix \<sigma> c fs time' mousePos' rnd' now'
  assume st: "settling s i \<sigma> (displacement_at s i) c"
  from settling_frames [OF assms st, of fs] obtain s2 c2 where
    r: "frames fs s = Inr s2"
    and k2: "arrays_ok s2" "sm_inv (soundManager s2)" "config s2 = config s"
    and st2: "settling s2 i \<sigma> (displacement_at s i) c2"
    and le2: "displacement_at s2 i \<le> displacement_at s i"
    and b2: "displacement_at s2 i
               \<le> max 0.1 ((1 - returnSpeed (config s)) ^ length fs * displacement_at s i)"
    by blast
  have i2: "i < particleCount (config s2)" using assms(3) k2(3) by simp
  have c2: "calm s2" using assms(4) calm_config [OF k2(3)] by simp
  from settling_call [OF k2(1,2) i2 c2 st2, of time' mousePos' rnd' now'] obtain s3 where
    "updateParticles time' mousePos' rnd' now' s2 = Inr s3"
    "displacement_at s3 i \<le> displacement_at s2 i"
    by blast
  with r le2 b2
  show "\<exists>s2 s3. frames fs s = Inr s2 \<and>
                 updateParticles time' mousePos' rnd' now' s2 = Inr s3 \<and>
                 displacement_at s3 i \<le> displacement_at s2 i \<and>
                 displacement_at s2 i \<le> displacement_at s i \<and>
                 displacement_at s2 i
                   \<le> max 0.1 ((1 - returnSpeed (config s)) ^ length fs * displacement_at s i)"
    by blast
qed

theorem return_spring_law_witness:
  "arrays_ok calm_state \<and> sm_inv (soundManager calm_state) \<and> calm calm_state \<and>
   homeward calm_state 0 0 \<and> displacement_at calm_state 0 = 1 \<and>
   pull_factor calm_state 1 = 303 / 1000000 \<and>
   settling calm_state 0 (2 / 100) 1 0 \<and>
   (\<exists>s1. updateParticles 0 (0, 0, 0) 0 0 calm_state = Inr s1 \<and>
         displacement_at s1 0 = 999697 / 1000000 \<and>
         displacement_at s1 0 \<le> displacement_at calm_state 0 \<and>
         homeward s1 0 (96 / 100 * (303 / 1000000) / (1 - 303 / 1000000))) \<and>
   (\<exists>s2 s3. frames [(0, (0, 0, 0), 0, 0), (1, (0, 0, 0), 0, 0)] calm_state = Inr s2 \<and>
            updateParticles 2 (0, 0, 0) 0 0 s2 = Inr s3 \<and>
            displacement_at s3 0 \<le> displacement_at s2 0 \<and>
            displacement_at s2 0 \<le> max 0.1 ((1 - 3 / 10000) ^ 2 * 1)) \<and>
   triple (velocities (calm_state\<lparr> positions := [105 / 100, 0, 0] \<rparr>)) 0 = (0, 0, 0) \<and>
   displacement_at (calm_state\<lparr> positions := [105 / 100, 0, 0] \<rparr>) 0 = 5 / 100 \<and>
   (\<exists>s4. updateParticles 0 (0, 0, 0) 0 0 (calm_state\<lparr> positions := [105 / 100, 0, 0] \<rparr>) = Inr s4 \<and>
         triple (positions s4) 0 = (105 / 100, 0, 0) \<and> triple (velocities s4) 0 = (0, 0, 0))"
proof -
  let ?n = "calm_state\<lparr> positions := [105 / 100, 0, 0] \<rparr>"
  have h: "arrays_ok calm_state" "sm_inv (soundManager calm_state)"
    "0 < particleCount (config calm_state)" "calm calm_state"
    by (simp_all add: calm_state_def arrays_ok_def sm_inv_def calm_def demo_state_def
          demo_config_def new_SoundManager_def)
  have hn: "arrays_ok ?n" "sm_inv (soundManager ?n)" "0 < particleCount (config ?n)" "calm ?n"
    by (simp_all add: calm_state_def arrays_ok_def sm_inv_def calm_def demo_state_def
          demo_config_def new_SoundManager_def)
  have t: "triple (positions calm_state) 0 = (2, 0, 0)"
    "triple (originalPositions calm_state) 0 = (1, 0, 0)"
    "triple (velocities calm_state) 0 = (0, 0, 0)"
    by (simp_all add: triple_def calm_state_def demo_state_def)
  have tn: "triple (positions ?n) 0 = (105 / 100, 0, 0)"
    "triple (originalPositions ?n) 0 = (1, 0, 0)"
    "triple (velocities ?n) 0 = (0, 0, 0)"
    by (simp_all add: triple_def calm_state_def demo_state_def)
  have c: "returnSpeed (config calm_state) = 3 / 10000" "damping (config calm_state) = 96 / 100"
    by (simp_all add: calm_state_def demo_config_def)
  have d: "displacement_at calm_state 0 = 1"
    by (simp add: displacement_at_def t displacement_along_x)
  have dn: "displacement_at ?n 0 = 5 / 100"
    unfolding displacement_at_def tn displacement_along_x by simp
  have hw: "homeward calm_state 0 0"
    by (simp add: homeward_def t vscale_def vsub_def)
  have k: "pull_factor calm_state 1 = 303 / 1000000"
    by (simp add: pull_factor_def c)
  have st: "settling calm_state 0 (2 / 100) 1 0"
    by (simp add: settling_def hw d k c)
  note law = return_spring_law [OF h, of 0 "(0, 0, 0)" 0 0]
  from law obtain s1 where
    u: "updateParticles 0 (0, 0, 0) 0 0 calm_state = Inr s1"
    and a: "\<forall>c. homeward calm_state 0 c \<longrightarrow>
              displacement_at s1 0
                = \<bar>1 - (pull_factor calm_state (displacement_at calm_state 0) + c)\<bar>
                    * displacement_at calm_state 0 \<and>
              (0 \<le> pull_factor calm_state (displacement_at calm_state 0) + c \<and>
               pull_factor calm_state (displacement_at calm_state 0) + c \<le> 2 \<longrightarrow>
                 displacement_at s1 0 \<le> displacement_at calm_state 0) \<and>
              (pull_factor calm_state (displacement_at calm_state 0) + c \<noteq> 1 \<longrightarrow>
                 homeward s1 0
                   (damping (config calm_state)
                      * (pull_factor calm_state (displacement_at calm_state 0) + c)
                      / (1 - (pull_factor calm_state (displacement_at calm_state 0) + c))))"
    by blast
  from a hw have b: "displacement_at s1 0 = \<bar>1 - (303 / 1000000 + 0)\<bar> * 1"
    "0 \<le> (303 / 1000000 + 0 :: real) \<and> (303 / 1000000 + 0 :: real) \<le> 2 \<longrightarrow>
       displacement_at s1 0 \<le> displacement_at calm_state 0"
    "(303 / 1000000 + 0 :: real) \<noteq> 1 \<longrightarrow>
       homeward s1 0 (96 / 100 * (303 / 1000000 + 0) / (1 - (303 / 1000000 + 0)))"
    unfolding d k c by blast+
  have b1: "displacement_at s1 0 = 999697 / 1000000" using b(1) by simp
  have b2: "displacement_at s1 0 \<le> displacement_at calm_state 0" using b(2) by simp
  have b3: "homeward s1 0 (96 / 100 * (303 / 1000000) / (1 - 303 / 1000000))"
    using b(3) by simp
  from law st [unfolded d [symmetric]] obtain s2 s3 where
    r: "frames [(0, (0, 0, 0), 0, 0), (1, (0, 0, 0), 0, 0)] calm_state = Inr s2"
      "updateParticles 2 (0, 0, 0) 0 0 s2 = Inr s3"
      "displacement_at s3 0 \<le> displacement_at s2 0"
      "displacement_at s2 0
         \<le> max 0.1 ((1 - returnSpeed (config calm_state))
                       ^ length [(0::real, (0::real, 0::real, 0::real), 0::real, 0::real),
                                 (1, (0, 0, 0), 0, 0)]
                     * displacement_at calm_state 0)"
    by blast
  have r4: "displacement_at s2 0 \<le> max 0.1 ((1 - 3 / 10000) ^ 2 * 1)"
    using r(4) unfolding d c by (simp add: power2_eq_square)
  from return_spring_law [OF hn, of 0 "(0, 0, 0)" 0 0] obtain s4 where
    u4: "updateParticles 0 (0, 0, 0) 0 0 ?n = Inr s4"
    and i4: "triple (velocities ?n) 0 = (0, 0, 0) \<and> displacement_at ?n 0 \<le> 0.1 \<longrightarrow>
              triple (positions s4) 0 = triple (positions ?n) 0 \<and>
              triple (velocities s4) 0 = (0, 0, 0)"
    by blast
  have "displacement_at ?n 0 \<le> 0.1" unfolding dn by simp
  with i4 tn(3) have s4: "triple (positions s4) 0 = (105 / 100, 0, 0)"
    "triple (velocities s4) 0 = (0, 0, 0)"
    unfolding tn(1) by blast+
  from h(1,2,4) hw d k st u b1 b2 b3 r(1,2,3) r4 tn(3) dn u4 s4 show ?thesis
    by blast
qed

lemma moving_particle_leaves:
  "mouseForce (config drifting_state) = 0 \<and> windStrength (config drifting_state) = 0 \<and>
   noiseAmount (config drifting_state) = 0 \<and>
   displacement_of (triple (positions drifting_state) 0)
     (triple (originalPositions drifting_state) 0) = 0 \<and>
   map_sum id (\<lambda>s1. displacement_of (triple (positions s1) 0) (triple (originalPositions s1) 0))
     (updateParticles 0 (1, 0, 0) 0 0 drifting_state) = Inr 1"
proof -
  let ?c = "frame_of 0 (1, 0, 0) drifting_state"
  have h: "arrays_ok drifting_state" "sm_inv (soundManager drifting_state)"
    "0 < particleCount (config drifting_state)"
    by (simp_all add: drifting_state_def arrays_ok_def sm_inv_def demo_state_def
          demo_config_def new_SoundManager_def)
  have c: "mouseForce (config drifting_state) = 0" "windStrength (config drifting_state) = 0"
    "noiseAmount (config drifting_state) = 0"
    by (simp_all add: drifting_state_def)
  have t: "triple (positions drifting_state) 0 = (1, 0, 0)"
    "triple (originalPositions drifting_state) 0 = (1, 0, 0)"
    "triple (velocities drifting_state) 0 = (1, 0, 0)"
    by (simp_all add: triple_def drifting_state_def demo_state_def)
  have d0: "displacement_of (1, 0, 0) (1, 0, 0) = 0" by (simp add: displacement_of_def)
  have ia: "interaction_accel ?c (1, 0, 0) = (0, 0, 0)"
    by (simp add: interaction_accel_def in_reach_def d0)
  have wa: "wind_accel ?c (1, 0, 0) (1, 0, 0) = (0, 0, 0)"
    by (simp add: wind_accel_def d0 Let_def)
  have ra: "return_accel ?c (1, 0, 0) (1, 0, 0) = (0, 0, 0)"
    by (simp add: return_accel_def d0)
  have ja: "jitter_accel ?c (1, 0, 0) = (0, 0, 0)"
    by (simp add: jitter_accel_def c)
  have b: "vadd (1, 0, 0) (boosted ?c (1, 0, 0) (1, 0, 0) (1, 0, 0)) = (2, 0, 0)"
    by (simp add: boosted_def ia wa ra ja vadd_def)
  from updateParticles_particle [OF h, of 0 "(1, 0, 0)" 0 0]
  obtain s1 where
    u: "updateParticles 0 (1, 0, 0) 0 0 drifting_state = Inr s1"
    and q: "originalPositions s1 = originalPositions drifting_state"
      "triple (positions s1) 0 = (2, 0, 0)"
    unfolding t b by blast
  have "displacement_of (triple (positions s1) 0) (triple (originalPositions s1) 0) = 1"
    unfolding q t by (simp add: displacement_of_def)
  with u c t d0 show ?thesis by simp
qed

lemma stiff_spring_overshoots:
  "calm stiff_state \<and> triple (velocities stiff_state) 0 = (0, 0, 0) \<and>
   displacement_at stiff_state 0 = 1 \<and>
   map_sum id (\<lambda>s1. displacement_at s1 0) (frames [(0, (0, 0, 0), 0, 0)] stiff_state) = Inr 0 \<and>
   map_sum id (\<lambda>s2. displacement_at s2 0)
     (frames [(0, (0, 0, 0), 0, 0), (1, (0, 0, 0), 0, 0)] stiff_state) = Inr (96 / 100)"
proof -
  have h: "arrays_ok stiff_state" "sm_inv (soundManager stiff_state)"
    "0 < particleCount (config stiff_state)" "calm stiff_state"
    by (simp_all add: stiff_state_def calm_state_def arrays_ok_def sm_inv_def calm_def
          demo_state_def demo_config_def new_SoundManager_def)
  have t: "triple (positions stiff_state) 0 = (2, 0, 0)"
    "triple (originalPositions stiff_state) 0 = (1, 0, 0)"
    "triple (velocities stiff_state) 0 = (0, 0, 0)"
    by (simp_all add: triple_def stiff_state_def calm_state_def demo_state_def)
  have c: "returnSpeed (config stiff_state) = 100 / 101" "damping (config stiff_state) = 96 / 100"
    by (simp_all add: stiff_state_def calm_state_def demo_config_def)
  have d: "displacement_at stiff_state 0 = 1"
    by (simp add: displacement_at_def t displacement_along_x)
  have k: "pull_factor stiff_state 1 = 1" by (simp add: pull_factor_def c)
  from calm_call [OF h, of 0 "(0, 0, 0)" 0 0] obtain s1 where
    u1: "updateParticles 0 (0, 0, 0) 0 0 stiff_state = Inr s1"
    and k1: "arrays_ok s1" "sm_inv (soundManager s1)" "config s1 = config stiff_state"
      "originalPositions s1 = originalPositions stiff_state"
    and p1: "triple (positions s1) 0 = (1, 0, 0)"
    and v1: "triple (velocities s1) 0 = (- (96 / 100), 0, 0)"
    unfolding t d k c by (auto simp: vadd_def vscale_def vsub_def)
  have d1: "displacement_at s1 0 = 0"
    by (simp add: displacement_at_def p1 k1(4) t displacement_along_x)
  have h1: "0 < particleCount (config s1)" "calm s1"
    using h(3,4) k1(3) by (simp_all add: calm_def)
  have k0: "pull_factor s1 0 = 0" by (simp add: pull_factor_def)
  from calm_call [OF k1(1,2) h1, of 1 "(0, 0, 0)" 0 0] obtain s2 where
    u2: "updateParticles 1 (0, 0, 0) 0 0 s1 = Inr s2"
    and o2: "originalPositions s2 = originalPositions s1"
    and p2: "triple (positions s2) 0 = (4 / 100, 0, 0)"
    unfolding p1 v1 d1 k0 k1(4) t by (auto simp: vadd_def vscale_def vsub_def)
  have d2: "displacement_at s2 0 = 96 / 100"
    by (simp add: displacement_at_def p2 o2 k1(4) t displacement_along_x)
  show ?thesis
    by (simp add: u1 u2 d1 d2 h(4) t(3) d)
qed

lemma displacement_ge_x: "\<bar>x - ox\<bar> \<le> displacement_of (x, y, z) (ox, oy, oz)"
proof -
  have "(x - ox) * (x - ox)
          \<le> (x - ox) * (x - ox) + (y - oy) * (y - oy) + (z - oz) * (z - oz)"
    by simp
  then have "sqrt ((x - ox) * (x - ox))
               \<le> sqrt ((x - ox) * (x - ox) + (y - oy) * (y - oy) + (z - oz) * (z - oz))"
    by (rule real_sqrt_le_mono)
  then show ?thesis by (simp add: displacement_of_def)
qed

lemma turbulence_moves_particle_at_rest:
  "mouseForce (config gusty_state) = 0 \<and> windStrength (config gusty_state) = 0 \<and>
   noiseAmount (config gusty_state) = 0 \<and>
   triple (velocities gusty_state) 0 = (0, 0, 0) \<and>
   displacement_at gusty_state 0 = 5 / 100 \<and>
   map_sum id (\<lambda>s1. displacement_at gusty_state 0 < displacement_at s1 0)
     (updateParticles (5 * pi / 77.9388 - 525 / 10000) (105 / 100, 0, 0) 0 0 gusty_state)
     = Inr True"
proof -
  let ?t = "5 * pi / 77.9388 - 525 / 10000 :: real"
  let ?m = "(105 / 100, 0, 0) :: vec3"
  let ?c = "frame_of ?t ?m gusty_state"
  have h: "arrays_ok gusty_state" "sm_inv (soundManager gusty_state)"
    "0 < particleCount (config gusty_state)"
    by (simp_all add: gusty_state_def arrays_ok_def sm_inv_def demo_state_def
          demo_config_def new_SoundManager_def)
  have t: "triple (positions gusty_state) 0 = (105 / 100, 0, 0)"
    "triple (originalPositions gusty_state) 0 = (1, 0, 0)"
    "triple (velocities gusty_state) 0 = (0, 0, 0)"
    by (simp_all add: triple_def gusty_state_def demo_state_def)
  have c: "mouseForce (config gusty_state) = 0" "windStrength (config gusty_state) = 0"
    "noiseAmount (config gusty_state) = 0" "windTurbulence (config gusty_state) = 2 / 10"
    by (simp_all add: gusty_state_def demo_config_def)
  have d: "displacement_of (105 / 100, 0, 0) (1, 0, 0) = 5 / 100"
    unfolding displacement_along_x by simp
  have d': "displacement_of (21 / 20, 0, 0) (1, 0, 0) = 1 / 20"
    unfolding displacement_along_x by simp
  have d0: "displacement_at gusty_state 0 = 5 / 100"
    unfolding displacement_at_def t by (rule d)
  have a: "(105 / 100 * 0.01 + ?t * 0.2) * 12.9898 + 0 * 0.01 * 78.233 + 0 * 0.01 * 37.719
             = pi / 6"
    by (simp add: field_simps)
  have n: "noise3D (105 / 100 * 0.01 + ?t * 0.2) (0 * 0.01) (0 * 0.01) = 27265 / 100000"
    unfolding noise3D_def Let_def a sin_30
    by (simp add: js_rem_def js_trunc_def)
  have ia: "interaction_accel ?c (105 / 100, 0, 0) = (0, 0, 0)"
    by (simp add: interaction_accel_def in_reach_def displacement_of_def)
  have ra: "return_accel ?c (105 / 100, 0, 0) (1, 0, 0) = (0, 0, 0)"
    by (simp add: return_accel_def d d')
  have ja: "jitter_accel ?c (105 / 100, 0, 0) = (0, 0, 0)"
    by (simp add: jitter_accel_def c)
  obtain wx wy wz where w: "wind_accel ?c (105 / 100, 0, 0) (1, 0, 0) = (wx, wy, wz)"
    by (cases "wind_accel ?c (105 / 100, 0, 0) (1, 0, 0)") auto
  have "fst (wind_accel ?c (105 / 100, 0, 0) (1, 0, 0))
          = (0 + 27265 / 100000 * (2 / 10)) * (min (5 / 100 / 50) 1 * 0.5) * 0.05"
    unfolding wind_accel_def prod.case Let_def d fst_conv frame_of_simps c n by simp
  then have wx: "0 < wx" unfolding w by simp
  have b: "vadd (105 / 100, 0, 0) (boosted ?c (105 / 100, 0, 0) (1, 0, 0) (0, 0, 0))
             = (105 / 100 + wx, wy, wz)"
    unfolding boosted_def ia w ra ja by (simp add: vadd_def)
  from updateParticles_particle [OF h, of ?t ?m 0 0]
  obtain s1 where
    u: "updateParticles ?t ?m 0 0 gusty_state = Inr s1"
    and q: "originalPositions s1 = originalPositions gusty_state"
      "triple (positions s1) 0 = (105 / 100 + wx, wy, wz)"
    unfolding t b by blast
  have "\<bar>105 / 100 + wx - 1\<bar> \<le> displacement_at s1 0"
    unfolding displacement_at_def q t by (rule displacement_ge_x)
  with wx have lt: "5 / 100 < displacement_at s1 0" by simp
  have r: "map_sum id (\<lambda>s1. displacement_at gusty_state 0 < displacement_at s1 0)
             (updateParticles ?t ?m 0 0 gusty_state) = Inr True"
    unfolding u d0 using lt by simp
  from c(1,2,3) t(3) d0 r show ?thesis by blast
qed

text \<open>
  The claim as stated fails, in three ways; each state below has \<open>mouseForce\<close>,
  \<open>windStrength\<close> and \<open>noiseAmount\<close> at 0.

  \<^item> A particle that moves: in \<open>drifting_state\<close> the particle sits on its origin position
    with velocity \<open>(1, 0, 0)\<close>, and is at displacement 1 after one call.
  \<^item> A spring that overshoots: in \<open>stiff_state\<close> the particle is at rest at displacement
    1; the first call takes it onto its origin position, displacement 0, and the second
    call, on the velocity the first one left, to displacement 0.96.
  \<^item> Turbulence, which \<open>windStrength\<close> does not scale: in \<open>gusty_state\<close> the particle
    is at rest at displacement 0.05, where there is no pull, and one call at a time at
    which the noise sample is 0.27265 takes it further away.
\<close>

theorem displacement_can_grow_counterexample:
  "(mouseForce (config drifting_state) = 0 \<and> windStrength (config drifting_state) = 0 \<and>
   noiseAmount (config drifting_state) = 0 \<and>
   displacement_of (triple (positions drifting_state) 0)
     (triple (originalPositions drifting_state) 0) = 0 \<and>
   map_sum id (\<lambda>s1. displacement_of (triple (positions s1) 0) (triple (originalPositions s1) 0))
     (updateParticles 0 (1, 0, 0) 0 0 drifting_state) = Inr 1) \<and>
   (calm stiff_state \<and> triple (velocities stiff_state) 0 = (0, 0, 0) \<and>
   displacement_at stiff_state 0 = 1 \<and>
   map_sum id (\<lambda>s1. displacement_at s1 0) (frames [(0, (0, 0, 0), 0, 0)] stiff_state) = Inr 0 \<and>
   map_sum id (\<lambda>s2. displacement_at s2 0)
     (frames [(0, (0, 0, 0), 0, 0), (1, (0, 0, 0), 0, 0)] stiff_state) = Inr (96 / 100)) \<and>
   (mouseForce (config gusty_state) = 0 \<and> windStrength (config gusty_state) = 0 \<and>
   noiseAmount (config gusty_state) = 0 \<and>
   triple (velocities gusty_state) 0 = (0, 0, 0) \<and>
   displacement_at gusty_state 0 = 5 / 100 \<and>
   map_sum id (\<lambda>s1. displacement_at gusty_state 0 < displacement_at s1 0)
     (updateParticles (5 * pi / 77.9388 - 525 / 10000) (105 / 100, 0, 0) 0 0 gusty_state)
     = Inr True)"
  using moving_particle_leaves stiff_spring_overshoots turbulence_moves_particle_at_rest
  by blast

lemma arrays_ok_spin [simp]:
  "arrays_ok (s\<lparr> uTime := a, rotation_y := b \<rparr>) = arrays_ok s"
  by (simp add: arrays_ok_def)

text \<open>
  Claim C8. A frame of a frozen simulation returns the state with only the shader time and
  the rotation angle written: the angle grows by \<open>rotationSpeed\<close>, with the sign flipped
  when the colours are inverted, and no position or velocity entry changes, since
  \<^verbatim>\<open>updateParticles\<close> is not called. A frame of any simulation whose arrays have the
  allocated length and whose sound manager is in a reachable state, frozen or not, returns
  normally with the angle grown by the same amount.
\<close>

theorem animate_always_rotates_and_freeze_skips_physics:
  "(isFrozen s \<longrightarrow>
      animate time mousePos rnd now s
        = Inr (s\<lparr> uTime := time,
                 rotation_y := rotation_y s
                   + rotationSpeed (config s) * (if isInverted s then - 1 else 1) \<rparr>) \<and>
      (\<exists>s1. animate time mousePos rnd now s = Inr s1 \<and>
            positions s1 = positions s \<and> velocities s1 = velocities s)) \<and>
   (arrays_ok s \<and> sm_inv (soundManager s) \<longrightarrow>
      (\<exists>s1. animate time mousePos rnd now s = Inr s1 \<and>
            rotation_y s1
              = rotation_y s + rotationSpeed (config s) * (if isInverted s then - 1 else 1)))"
proof (intro conjI impI)
  assume "isFrozen s"
  then show fr: "animate time mousePos rnd now s
        = Inr (s\<lparr> uTime := time,
                 rotation_y := rotation_y s
                   + rotationSpeed (config s) * (if isInverted s then - 1 else 1) \<rparr>)"
    by (simp add: animate_def Let_def)
  then show "\<exists>s1. animate time mousePos rnd now s = Inr s1 \<and>
            positions s1 = positions s \<and> velocities s1 = velocities s"
    by simp
next
  assume a: "arrays_ok s \<and> sm_inv (soundManager s)"
  let ?s2 = "s\<lparr> uTime := time,
                 rotation_y := rotation_y s
                   + rotationSpeed (config s) * (if isInverted s then - 1 else 1) \<rparr>"
  show "\<exists>s1. animate time mousePos rnd now s = Inr s1 \<and>
            rotation_y s1
              = rotation_y s + rotationSpeed (config s) * (if isInverted s then - 1 else 1)"
  proof (cases "isFrozen s")
    case True
    then show ?thesis by (simp add: animate_def Let_def)
  next
    case False
    have ok: "arrays_ok ?s2" "sm_inv (soundManager ?s2)" using a by simp_all
    from particle_loop_eq [OF ok(1), of "frame_of time mousePos ?s2"]
    obtain P V E where l: "particle_loop (frame_of time mousePos ?s2) ?s2 = Inr (P, V, E)"
      by blast
    from updateParticles_eq [OF ok l, of rnd now] obtain s1 where
      "updateParticles time mousePos rnd now ?s2 = Inr s1" "rotation_y s1 = rotation_y ?s2"
      by blast
    with False show ?thesis by (simp add: animate_def Let_def)
  qed
qed

theorem animate_always_rotates_and_freeze_skips_physics_witness:
  "isFrozen (demo_state\<lparr> isFrozen := True, isInverted := True \<rparr>) \<and>
   animate 1 (0, 0, 0) 0 0 (demo_state\<lparr> isFrozen := True, isInverted := True \<rparr>)
     = Inr (demo_state\<lparr> isFrozen := True, isInverted := True, uTime := 1,
                        rotation_y := - (3 / 1000) \<rparr>) \<and>
   arrays_ok demo_state \<and> sm_inv (soundManager demo_state) \<and> \<not> isFrozen demo_state \<and>
   (\<exists>s1. animate 1 (0, 0, 0) 0 0 demo_state = Inr s1 \<and> rotation_y s1 = 3 / 1000)"
proof -
  let ?f = "demo_state\<lparr> isFrozen := True, isInverted := True \<rparr>"
  have f: "isFrozen ?f" by simp
  have h: "arrays_ok demo_state \<and> sm_inv (soundManager demo_state)"
    by (simp add: arrays_ok_def sm_inv_def demo_state_def demo_config_def new_SoundManager_def)
  have n: "\<not> isFrozen demo_state" by (simp add: demo_state_def)
  from animate_always_rotates_and_freeze_skips_physics [of ?f 1 "(0, 0, 0)" 0 0] f
  have "animate 1 (0, 0, 0) 0 0 ?f
          = Inr (?f\<lparr> uTime := 1,
                   rotation_y := rotation_y ?f
                     + rotationSpeed (config ?f) * (if isInverted ?f then - 1 else 1) \<rparr>)"
    by blast
  then have a: "animate 1 (0, 0, 0) 0 0 ?f
          = Inr (demo_state\<lparr> isFrozen := True, isInverted := True, uTime := 1,
                              rotation_y := - (3 / 1000) \<rparr>)"
    by (simp add: demo_state_def demo_config_def)
  from animate_always_rotates_and_freeze_skips_physics [of demo_state 1 "(0, 0, 0)" 0 0] h
  obtain s1 where
    "animate 1 (0, 0, 0) 0 0 demo_state = Inr s1"
    "rotation_y s1 = rotation_y demo_state
       + rotationSpeed (config demo_state) * (if isInverted demo_state then - 1 else 1)"
    by blast
  then have "\<exists>s1. animate 1 (0, 0, 0) 0 0 demo_state = Inr s1 \<and> rotation_y s1 = 3 / 1000"
    by (simp add: demo_state_def demo_config_def)
  with f a h n show ?thesis by blast
qed

end
